theory Spec2Isabelle
  imports Complex_Main
begin

section \<open>JavaScript numbers\<close>

text \<open>
  A JavaScript \<open>number\<close> is an IEEE 754 binary64 value. The model keeps the three
  special values apart and holds a finite value in its binary64 form: \<open>Fin m e\<close> is
  \<open>m * 2 ^ e\<close> with \<open>\<bar>m\<bar> < 2 ^ 53\<close> and \<open>- 1074 \<le> e \<le> 971\<close>, where \<open>2 ^ 52 \<le> \<bar>m\<bar>\<close> unless
  \<open>e = - 1074\<close> (a subnormal), and zero is \<open>Fin 0 0\<close>. Each value has one such form, so
  equality of numbers is equality of terms. Every arithmetic operation computes the
  exact result as a fraction of integers and rounds it to the nearest binary64 value,
  ties to even (\<open>fl\<close>), which is what IEEE 754 prescribes.
  The two zeros are identified: the job only applies \<open>-\<close>, \<open>/\<close>, \<open>*\<close>, \<open>Math.abs\<close>,
  \<open>>\<close>, \<open>===\<close>, \<open>toString\<close> and \<open>toFixed\<close> to numbers, and its one division is guarded
  by \<open>previous === 0\<close>, so no result depends on the sign of a zero.
\<close>

datatype number = NaN | PosInf | NegInf | Fin int int

text \<open>A fraction \<open>(n, d)\<close> stands for \<open>n / d\<close>; its denominator is positive.\<close>

type_synonym frac = "int \<times> int"

definition frac_of :: "int \<Rightarrow> int \<Rightarrow> frac" where
  "frac_of m e = (if 0 \<le> e then (m * 2 ^ nat e, 1) else (m, 2 ^ nat (- e)))"

text \<open>The fraction \<open>n * b ^ k\<close>, for an exponent \<open>k\<close> of either sign.\<close>

definition scale :: "int \<Rightarrow> int \<Rightarrow> int \<Rightarrow> frac" where
  "scale b n k = (if 0 \<le> k then (n * b ^ nat k, 1) else (n, b ^ nat (- k)))"

definition frac_le :: "frac \<Rightarrow> frac \<Rightarrow> bool" where
  "frac_le x y = (fst x * snd y \<le> fst y * snd x)"

definition frac_less :: "frac \<Rightarrow> frac \<Rightarrow> bool" where
  "frac_less x y = (fst x * snd y < fst y * snd x)"

definition frac_mul :: "frac \<Rightarrow> frac \<Rightarrow> frac" where
  "frac_mul x y = (fst x * fst y, snd x * snd y)"

definition frac_sub :: "frac \<Rightarrow> frac \<Rightarrow> frac" where
  "frac_sub x y = (fst x * snd y - fst y * snd x, snd x * snd y)"

text \<open>\<open>x / y\<close> for \<open>y \<noteq> 0\<close>, the sign moved to the numerator.\<close>

definition frac_div :: "frac \<Rightarrow> frac \<Rightarrow> frac" where
  "frac_div x y = (sgn (fst y) * fst x * snd y, snd x * \<bar>fst y\<bar>)"

text \<open>The number of digits of \<open>n\<close> in radix \<open>b\<close> (0 for \<open>n = 0\<close>).\<close>

fun ndigits :: "nat \<Rightarrow> nat \<Rightarrow> int" where
  "ndigits b n = (if n = 0 \<or> b < 2 then 0 else 1 + ndigits b (n div b))"

declare ndigits.simps [simp del]

text \<open>
  For a fraction \<open>x > 0\<close>: the \<open>k\<close> with \<open>b ^ k \<le> x < b ^ (k + 1)\<close>. The difference of the
  digit counts of numerator and denominator is \<open>k\<close> or \<open>k + 1\<close>.
\<close>

definition magnitude :: "nat \<Rightarrow> frac \<Rightarrow> int" where
  "magnitude b x =
     (let k = ndigits b (nat (fst x)) - ndigits b (nat (snd x))
      in if frac_le (scale (int b) 1 k) x then k else k - 1)"

text \<open>The integer nearest to \<open>n / d\<close> (\<open>0 \<le> n\<close>, \<open>0 < d\<close>), a tie going to the even one.\<close>

definition round_half_even :: "frac \<Rightarrow> int" where
  "round_half_even x =
     (let q = fst x div snd x; r = fst x mod snd x
      in if 2 * r < snd x then q else if snd x < 2 * r then q + 1
         else if even q then q else q + 1)"

text \<open>
  Rounding to binary64: 53 significant bits, the least exponent of the last place is
  \<open>- 1074\<close> (subnormals), and a result beyond the largest finite value is an infinity.
\<close>

definition ulp_exponent :: "frac \<Rightarrow> int" where
  "ulp_exponent a = max (magnitude 2 a - 52) (- 1074)"

text \<open>The significand \<open>m \<ge> 0\<close> and the exponent \<open>e\<close> as a number: \<open>m = 2 ^ 53\<close> is carried.\<close>

definition pack :: "int \<Rightarrow> int \<Rightarrow> number" where
  "pack m e =
     (if m = 0 then Fin 0 0
      else if m = 2 ^ 53 then (if 971 < e + 1 then PosInf else Fin (2 ^ 52) (e + 1))
      else if 971 < e then PosInf
      else Fin m e)"

definition fl_pos :: "frac \<Rightarrow> number" where
  "fl_pos a = pack (round_half_even (frac_mul a (scale 2 1 (- ulp_exponent a)))) (ulp_exponent a)"

fun num_neg :: "number \<Rightarrow> number" where
  "num_neg NaN = NaN"
| "num_neg PosInf = NegInf"
| "num_neg NegInf = PosInf"
| "num_neg (Fin m e) = Fin (- m) e"

definition fl :: "frac \<Rightarrow> number" where
  "fl x =
     (if fst x = 0 then Fin 0 0
      else if 0 < fst x then fl_pos x
      else num_neg (fl_pos (- fst x, snd x)))"

text \<open>The sign of a number other than \<open>NaN\<close>, and the infinity of a given sign.\<close>

fun sign_of :: "number \<Rightarrow> int" where
  "sign_of NaN = 0"
| "sign_of PosInf = 1"
| "sign_of NegInf = - 1"
| "sign_of (Fin m e) = sgn m"

definition signed_inf :: "int \<Rightarrow> number" where
  "signed_inf s = (if s = 0 then NaN else if 0 < s then PosInf else NegInf)"

fun num_abs :: "number \<Rightarrow> number" where
  "num_abs NaN = NaN"
| "num_abs PosInf = PosInf"
| "num_abs NegInf = PosInf"
| "num_abs (Fin m e) = Fin \<bar>m\<bar> e"

fun num_sub :: "number \<Rightarrow> number \<Rightarrow> number" where
  "num_sub (Fin m e) (Fin m' e') = fl (frac_sub (frac_of m e) (frac_of m' e'))"
| "num_sub NaN _ = NaN"
| "num_sub _ NaN = NaN"
| "num_sub PosInf PosInf = NaN"
| "num_sub NegInf NegInf = NaN"
| "num_sub PosInf _ = PosInf"
| "num_sub NegInf _ = NegInf"
| "num_sub (Fin m e) PosInf = NegInf"
| "num_sub (Fin m e) NegInf = PosInf"

fun num_mul :: "number \<Rightarrow> number \<Rightarrow> number" where
  "num_mul (Fin m e) (Fin m' e') = fl (frac_mul (frac_of m e) (frac_of m' e'))"
| "num_mul NaN _ = NaN"
| "num_mul _ NaN = NaN"
| "num_mul x y = signed_inf (sign_of x * sign_of y)"

text \<open>
  Division. A finite non-zero value over zero is an infinity (the zero taken as \<open>+0\<close>),
  zero over zero and infinity over infinity are \<open>NaN\<close>.
\<close>

fun num_div :: "number \<Rightarrow> number \<Rightarrow> number" where
  "num_div (Fin m e) (Fin m' e') =
     (if m' = 0 then signed_inf (sgn m)
      else fl (frac_div (frac_of m e) (frac_of m' e')))"
| "num_div NaN _ = NaN"
| "num_div _ NaN = NaN"
| "num_div (Fin m e) _ = Fin 0 0"
| "num_div x (Fin m' e') = signed_inf (sign_of x * (if m' < 0 then - 1 else 1))"
| "num_div _ _ = NaN"

text \<open>\<open>x > y\<close> and \<open>x === y\<close> on numbers: every comparison with \<open>NaN\<close> is false.\<close>

fun num_gt :: "number \<Rightarrow> number \<Rightarrow> bool" where
  "num_gt (Fin m e) (Fin m' e') = frac_less (frac_of m' e') (frac_of m e)"
| "num_gt NaN _ = False"
| "num_gt _ NaN = False"
| "num_gt PosInf y = (y \<noteq> PosInf)"
| "num_gt NegInf _ = False"
| "num_gt (Fin m e) PosInf = False"
| "num_gt (Fin m e) NegInf = True"

fun strict_eq :: "number \<Rightarrow> number \<Rightarrow> bool" where
  "strict_eq NaN _ = False"
| "strict_eq _ NaN = False"
| "strict_eq x y = (x = y)"

text \<open>An integer literal of the program text (\<open>0\<close>, \<open>5\<close>, \<open>10\<close>, \<open>100\<close>) as a number.\<close>

definition lit :: "int \<Rightarrow> number" where
  "lit n = fl (n, 1)"

section \<open>Strings and numbers\<close>

text \<open>
  Strings are lists of characters, a character being a code unit below 256. The
  conversions below are the ones of ECMAScript: \<open>Number(s)\<close> (StringToNumber),
  \<open>x.toString()\<close> (Number::toString, radix 10), \<open>x.toFixed(f)\<close> and \<open>BigInt(s)\<close>
  (StringToBigInt).
\<close>

fun index_of :: "'a \<Rightarrow> 'a list \<Rightarrow> nat option" where
  "index_of x [] = None"
| "index_of x (y # ys) = (if x = y then Some 0 else map_option Suc (index_of x ys))"

definition digit_val :: "nat \<Rightarrow> char \<Rightarrow> nat option" where
  "digit_val b c =
     (case index_of c ''0123456789abcdef'' of
        Some d \<Rightarrow> if d < b then Some d else None
      | None \<Rightarrow> (case index_of c ''ABCDEF'' of
          Some d \<Rightarrow> if d + 10 < b then Some (d + 10) else None
        | None \<Rightarrow> None))"

definition is_digit :: "char \<Rightarrow> bool" where
  "is_digit c = (digit_val 10 c \<noteq> None)"

fun digits_val :: "nat \<Rightarrow> nat \<Rightarrow> string \<Rightarrow> nat option" where
  "digits_val b acc [] = Some acc"
| "digits_val b acc (c # cs) =
     (case digit_val b c of None \<Rightarrow> None | Some d \<Rightarrow> digits_val b (b * acc + d) cs)"

text \<open>A non-empty run of digits of radix \<open>b\<close>, and nothing else.\<close>

definition parse_digits :: "nat \<Rightarrow> string \<Rightarrow> nat option" where
  "parse_digits b s = (if s = [] then None else digits_val b 0 s)"

text \<open>
  StrWhiteSpaceChar, as far as characters reach: TAB, LF, VT, FF, CR, SP and the
  no-break space U+00A0. Its other members (U+1680, U+2000 to U+200A, U+2028, U+2029,
  U+202F, U+205F, U+3000, U+FEFF) lie above 255.
\<close>

definition is_space :: "char \<Rightarrow> bool" where
  "is_space c = (c \<in> set [CHR 0x09, CHR 0x0A, CHR 0x0B, CHR 0x0C, CHR 0x0D, CHR 0x20, CHR 0xA0])"

definition trim :: "string \<Rightarrow> string" where
  "trim s = rev (dropWhile is_space (rev (dropWhile is_space s)))"

text \<open>ExponentPart, optional: the empty rest is the exponent 0.\<close>

definition exponent_part :: "string \<Rightarrow> int option" where
  "exponent_part s =
     (case s of
        [] \<Rightarrow> Some 0
      | c # t \<Rightarrow>
          if c = CHR ''e'' \<or> c = CHR ''E'' then
            (case t of
               [] \<Rightarrow> None
             | d # u \<Rightarrow>
                 if d = CHR ''+'' then map_option int (parse_digits 10 u)
                 else if d = CHR ''-'' then map_option (\<lambda>n. - int n) (parse_digits 10 u)
                 else map_option int (parse_digits 10 t))
          else None)"

text \<open>
  StrUnsignedDecimalLiteral other than \<open>Infinity\<close>: digits, an optional point and more
  digits (at least one digit in all), an optional exponent. The result is the exact
  value of the literal.
\<close>

definition unsigned_decimal :: "string \<Rightarrow> frac option" where
  "unsigned_decimal s =
     (let ip = takeWhile is_digit s;
          r1 = dropWhile is_digit s;
          dot = (r1 \<noteq> [] \<and> hd r1 = CHR ''.'');
          fp = (if dot then takeWhile is_digit (tl r1) else []);
          r2 = (if dot then dropWhile is_digit (tl r1) else r1)
      in if ip = [] \<and> fp = [] then None
         else (case (digits_val 10 0 (ip @ fp), exponent_part r2) of
                 (Some m, Some e) \<Rightarrow> Some (scale 10 (int m) (e - int (length fp)))
               | _ \<Rightarrow> None))"

definition StrDecimalLiteral :: "string \<Rightarrow> number" where
  "StrDecimalLiteral s =
     (let neg = (s \<noteq> [] \<and> hd s = CHR ''-'');
          u = (if s \<noteq> [] \<and> (hd s = CHR ''+'' \<or> hd s = CHR ''-'') then tl s else s)
      in if u = ''Infinity'' then (if neg then NegInf else PosInf)
         else (case unsigned_decimal u of
                 None \<Rightarrow> NaN
               | Some q \<Rightarrow> fl (if neg then (- fst q, snd q) else q)))"

text \<open>NonDecimalIntegerLiteral: \<open>0b\<close>, \<open>0o\<close>, \<open>0x\<close> (either case) and digits of that radix.\<close>

definition NonDecimalIntegerLiteral :: "string \<Rightarrow> nat option" where
  "NonDecimalIntegerLiteral s =
     (case s of
        z # p # ds \<Rightarrow>
          if z \<noteq> CHR ''0'' then None
          else if p = CHR ''x'' \<or> p = CHR ''X'' then parse_digits 16 ds
          else if p = CHR ''o'' \<or> p = CHR ''O'' then parse_digits 8 ds
          else if p = CHR ''b'' \<or> p = CHR ''B'' then parse_digits 2 ds
          else None
      | _ \<Rightarrow> None)"

definition Number :: "string \<Rightarrow> number" where
  "Number s =
     (let t = trim s
      in if t = [] then Fin 0 0
         else (case NonDecimalIntegerLiteral t of
                 Some n \<Rightarrow> fl (int n, 1)
               | None \<Rightarrow> StrDecimalLiteral t))"

text \<open>The decimal digits of a natural number.\<close>

fun show_nat :: "nat \<Rightarrow> string" where
  "show_nat n =
     (if n < 10 then [''0123456789'' ! n]
      else show_nat (n div 10) @ [''0123456789'' ! (n mod 10)])"

declare show_nat.simps [simp del]

text \<open>
  Number::toString, steps 5 to 10. For a finite \<open>x > 0\<close> it takes integers \<open>n\<close>, \<open>k\<close>, \<open>s\<close>
  with \<open>10 ^ (k - 1) \<le> s < 10 ^ k\<close> such that \<open>s * 10 ^ (n - k)\<close> is \<open>x\<close> (rounds to \<open>x\<close>)
  and \<open>k\<close> is as small as possible, the \<open>s\<close> closest to \<open>x\<close> if there are several.
  \<open>digits_candidate\<close> looks for \<open>s\<close> with \<open>k\<close> digits: of the integers that qualify, the
  closest to \<open>x / 10 ^ (n - k)\<close> is one of the two around it. \<open>shortest_digits\<close> tries
  \<open>k = 1, 2, \<dots>, 17\<close> in turn; the seventeen digits nearest to a binary64 value round
  to it, and the last branch (those digits, taken without the test) keeps the function
  total.
\<close>

definition digits_candidate :: "number \<Rightarrow> frac \<Rightarrow> int \<Rightarrow> int \<Rightarrow> (int \<times> int) option" where
  "digits_candidate x a n k =
     (let y = frac_mul a (scale 10 1 (k - n));
          lo = fst y div snd y;
          hi = lo + 1;
          ok_lo = (fl (scale 10 lo (n - k)) = x);
          ok_hi = (fl (scale 10 hi (n - k)) = x);
          d = 2 * (fst y mod snd y);
          prefer_lo = (d < snd y \<or> (d = snd y \<and> even lo))
      in if ok_lo \<and> (prefer_lo \<or> \<not> ok_hi) then Some (lo, n)
         else if ok_hi then Some (if hi = 10 ^ nat k then (10 ^ nat (k - 1), n + 1) else (hi, n))
         else None)"

function shortest_digits :: "number \<Rightarrow> frac \<Rightarrow> int \<Rightarrow> int \<Rightarrow> int \<times> int" where
  "shortest_digits x a n k =
     (case digits_candidate x a n k of
        Some r \<Rightarrow> r
      | None \<Rightarrow>
          if 17 \<le> k then (round_half_even (frac_mul a (scale 10 1 (17 - n))), n)
          else shortest_digits x a n (k + 1))"
  by pat_completeness auto
termination
  by (relation "measure (\<lambda>(x, a, n, k). nat (17 - k))") auto

declare shortest_digits.simps [simp del]

text \<open>The digits \<open>ds\<close> of \<open>s\<close> and the exponent \<open>n\<close>, laid out as Number::toString does.\<close>

definition layout :: "string \<Rightarrow> int \<Rightarrow> string" where
  "layout ds n =
     (if int (length ds) \<le> n \<and> n \<le> 21 then ds @ replicate (nat (n - int (length ds))) CHR ''0''
      else if 0 < n \<and> n \<le> 21 then take (nat n) ds @ ''.'' @ drop (nat n) ds
      else if - 6 < n \<and> n \<le> 0 then ''0.'' @ replicate (nat (- n)) CHR ''0'' @ ds
      else (if length ds = 1 then ds else take 1 ds @ ''.'' @ drop 1 ds)
           @ ''e'' @ (if 0 \<le> n - 1 then ''+'' else ''-'') @ show_nat (nat \<bar>n - 1\<bar>))"

definition layout_digits :: "int \<times> int \<Rightarrow> string" where
  "layout_digits r = layout (show_nat (nat (fst r))) (snd r)"

definition toString_pos :: "int \<Rightarrow> int \<Rightarrow> string" where
  "toString_pos m e =
     layout_digits (shortest_digits (Fin m e) (frac_of m e) (magnitude 10 (frac_of m e) + 1) 1)"

fun toString :: "number \<Rightarrow> string" where
  "toString NaN = ''NaN''"
| "toString PosInf = ''Infinity''"
| "toString NegInf = ''-Infinity''"
| "toString (Fin m e) =
     (if m = 0 then ''0''
      else if m < 0 then ''-'' @ toString_pos (- m) e
      else toString_pos m e)"

text \<open>
  \<open>x.toFixed(f)\<close>: a number that is not finite, or of magnitude \<open>10 ^ 21\<close> or more, is
  printed as \<open>toString\<close> prints it. Otherwise the digits are those of the integer \<open>n\<close>
  nearest to \<open>x * 10 ^ f\<close> (the larger one on a tie), the last \<open>f\<close> of them after the
  point.
\<close>

text \<open>The digits \<open>ds\<close> of \<open>n\<close> with a point before the last \<open>f\<close> of them.\<close>

definition point_before :: "nat \<Rightarrow> string \<Rightarrow> string" where
  "point_before f ds =
     (if f = 0 then ds
      else if length ds \<le> f
      then ''0.'' @ replicate (f - length ds) CHR ''0'' @ ds
      else take (length ds - f) ds @ ''.'' @ drop (length ds - f) ds)"

definition toFixed_pos :: "nat \<Rightarrow> int \<Rightarrow> int \<Rightarrow> string" where
  "toFixed_pos f m e =
     (if frac_le (10 ^ 21, 1) (frac_of m e) then toString_pos m e
      else point_before f
             (show_nat (nat ((2 * fst (frac_of m e) * 10 ^ f + snd (frac_of m e))
                             div (2 * snd (frac_of m e))))))"

fun toFixed :: "nat \<Rightarrow> number \<Rightarrow> string" where
  "toFixed f (Fin m e) =
     (if m < 0 then ''-'' @ toFixed_pos f (- m) e else toFixed_pos f m e)"
| "toFixed f x = toString x"

section \<open>Errors\<close>

text \<open>
  Every \<open>throw\<close> and every rejected promise is a value: \<open>Error msg\<close> is \<open>new Error(msg)\<close>
  of the job's own text, \<open>SyntaxError\<close> and \<open>TypeError\<close> are raised by the language
  (\<open>BigInt\<close> of a string that is no integer, a property read on \<open>undefined\<close>), and
  \<open>Rejected n\<close> is the error object number \<open>n\<close> with which a call into the outside world
  (the database driver, \<open>fetch\<close>) fails.
\<close>

datatype error = Error string | SyntaxError | TypeError | Rejected nat

text \<open>\<open>BigInt(s)\<close>: an optional sign and decimal digits, or a literal of radix 2, 8 or 16.\<close>

definition BigInt :: "string \<Rightarrow> error + int" where
  "BigInt s =
     (let t = trim s
      in if t = [] then Inr 0
         else (case NonDecimalIntegerLiteral t of
                 Some n \<Rightarrow> Inr (int n)
               | None \<Rightarrow>
                  (case parse_digits 10 (if hd t = CHR ''+'' \<or> hd t = CHR ''-'' then tl t else t) of
                     None \<Rightarrow> Inl SyntaxError
                   | Some n \<Rightarrow> Inr (if hd t = CHR ''-'' then - int n else int n))))"

text \<open>
  \<open>formatEther(wei)\<close> of the viem library is \<open>formatUnits(wei, 18)\<close>: the decimal digits of
  the value, padded on the left to 18 digits, the last 18 after the point with their
  trailing zeros removed.
\<close>

definition formatUnits :: "int \<Rightarrow> nat \<Rightarrow> string" where
  "formatUnits v decimals =
     (let negative = (v < 0);
          display = show_nat (nat \<bar>v\<bar>);
          padded = replicate (decimals - length display) CHR ''0'' @ display;
          integer = take (length padded - decimals) padded;
          fraction = rev (dropWhile (\<lambda>c. c = CHR ''0'')
                       (rev (drop (length padded - decimals) padded)))
      in (if negative then ''-'' else [])
         @ (if integer = [] then ''0'' else integer)
         @ (if fraction = [] then [] else ''.'' @ fraction))"

definition formatEther :: "int \<Rightarrow> string" where
  "formatEther wei = formatUnits wei 18"

section \<open>The two deployments\<close>

text \<open>
  The repository holds the job twice. \<open>jobs/updatePrices.ts\<close> revalues the table
  \<open>"Bounties"\<close> of the schema named by the deployment id, with a threshold of 10 per
  cent; the other file revalues \<open>public."BountiesExtra"\<close>, with a threshold of 5 per
  cent. Their functions differ only where the model asks for the variant.
\<close>

datatype variant = SchemaQualified | Sidecar

definition threshold :: "variant \<Rightarrow> number" where
  "threshold v = (case v of SchemaQualified \<Rightarrow> lit 10 | Sidecar \<Rightarrow> lit 5)"

record PriceRow =
  eth_usd :: string
  degen_usd :: string

text \<open>
  A row of the bounty query. The key is \<open>id\<close> in the schema-qualified variant and
  \<open>bounty_id\<close> in the other; the model has the one field \<open>bounty_id\<close>.
\<close>

record BountyRow =
  bounty_id :: int
  amount :: string
  chain_id :: int

record LatestPrice =
  ethUsd :: number
  degenUsd :: number

record UpdatedPrice =
  prices :: LatestPrice
  didUpdate :: bool

section \<open>percentChange and the update decision\<close>

definition percentChange :: "number \<Rightarrow> number \<Rightarrow> error + number" where
  "percentChange current previous =
     (if strict_eq previous (lit 0) then Inl (Error ''Previous price === 0'')
      else Inr (num_abs (num_mul (num_div (num_sub current previous) previous) (lit 100))))"

text \<open>
  The constant \<open>shouldUpdatePrice\<close> of \<open>updateLatestPrice\<close>: \<open>!latestPrice || a > t || b > t\<close>.
  The operator \<open>||\<close> evaluates its right operand only when the left one is false.
\<close>

definition shouldUpdatePrice ::
  "variant \<Rightarrow> PriceRow option \<Rightarrow> number \<Rightarrow> number \<Rightarrow> error + bool" where
  "shouldUpdatePrice v latestPrice currentPriceEth currentPriceDegen =
     (case latestPrice of
        None \<Rightarrow> Inr True
      | Some row \<Rightarrow>
          (case percentChange currentPriceEth (Number (eth_usd row)) of
             Inl e \<Rightarrow> Inl e
           | Inr changeEth \<Rightarrow>
               if num_gt changeEth (threshold v) then Inr True
               else (case percentChange currentPriceDegen (Number (degen_usd row)) of
                       Inl e \<Rightarrow> Inl e
                     | Inr changeDegen \<Rightarrow> Inr (num_gt changeDegen (threshold v)))))"

section \<open>fetchPrice\<close>

text \<open>
  One request to the quote service: \<open>fetch\<close> rejects, or \<open>response.json()\<close> rejects, or a
  body arrives, whose \<open>data.rates.USD\<close> is a string or is missing.
\<close>

datatype attempt = FetchRejects | JsonRejects | Body "string option"

text \<open>The body of the \<open>try\<close>: the price string, unless a step throws (\<open>!price\<close> is true
  of a missing and of an empty string).\<close>

definition attempt_price :: "attempt \<Rightarrow> string option" where
  "attempt_price a =
     (case a of
        FetchRejects \<Rightarrow> None
      | JsonRejects \<Rightarrow> None
      | Body None \<Rightarrow> None
      | Body (Some price) \<Rightarrow> if price = [] then None else Some price)"

text \<open>
  The loop of \<open>fetchPrice\<close>. \<open>quotes i\<close> is the outcome of request number \<open>i\<close>, \<open>retries\<close>
  the counter, which starts at 5 and is only decremented while it is positive, so it is
  a natural number. The result comes with the number of requests made.
\<close>

function fetchPrice_loop :: "(nat \<Rightarrow> attempt) \<Rightarrow> nat \<Rightarrow> nat \<Rightarrow> (error + number) \<times> nat" where
  "fetchPrice_loop quotes i retries =
     (case attempt_price (quotes i) of
        Some price \<Rightarrow> (Inr (Number price), Suc i)
      | None \<Rightarrow>
          if retries - 1 = 0 then (Inl (Error ''Can not fetch price''), Suc i)
          else fetchPrice_loop quotes (Suc i) (retries - 1))"
  by pat_completeness auto
termination
  by (relation "measure (\<lambda>(quotes, i, retries). retries)") auto

declare fetchPrice_loop.simps [simp del]

definition fetchPrice :: "(nat \<Rightarrow> attempt) \<Rightarrow> (error + number) \<times> nat" where
  "fetchPrice quotes = fetchPrice_loop quotes 0 5"

section \<open>fetchDeploymentId\<close>

text \<open>
  The request for the deployment id: \<open>fetch\<close> rejects, or a response arrives with a
  status and a body, whose parsing rejects or yields the field \<open>deploymentId\<close>, if any.
\<close>

datatype deployment_response =
  DeploymentRejects error | DeploymentResponse nat "error + string option"

definition fetchDeploymentId :: "deployment_response \<Rightarrow> error + string" where
  "fetchDeploymentId r =
     (case r of
        DeploymentRejects e \<Rightarrow> Inl e
      | DeploymentResponse status body \<Rightarrow>
          if \<not> (200 \<le> status \<and> status \<le> 299)
          then Inl (Error (''Deployment ID fetch failed: '' @ show_nat status))
          else (case body of
                  Inl e \<Rightarrow> Inl e
                | Inr None \<Rightarrow> Inl (Error ''Deployment ID missing from response'')
                | Inr (Some deploymentId) \<Rightarrow>
                    if deploymentId = [] then Inl (Error ''Deployment ID missing from response'')
                    else Inr deploymentId))"

section \<open>Table identifiers\<close>

definition dq :: char where
  "dq = CHR 0x22"

text \<open>\<open>schemaName.replace(/"/g, '""')\<close>\<close>

definition safeSchema :: "string \<Rightarrow> string" where
  "safeSchema schemaName = concat (map (\<lambda>c. if c = dq then [dq, dq] else [c]) schemaName)"

text \<open>The template literals \<open>"${safeSchema}"."live_query_tables"\<close> and \<open>"${safeSchema}"."Bounties"\<close>.\<close>

definition tableName :: "string \<Rightarrow> string" where
  "tableName schemaName =
     [dq] @ safeSchema schemaName @ [dq] @ ''.'' @ [dq] @ ''live_query_tables'' @ [dq]"

definition bountiesTable :: "string \<Rightarrow> string" where
  "bountiesTable schemaName =
     [dq] @ safeSchema schemaName @ [dq] @ ''.'' @ [dq] @ ''Bounties'' @ [dq]"

text \<open>
  How SQL reads a quoted identifier: from the opening quote to the first quote that is
  not doubled, a doubled quote standing for one quote character. \<open>quoted_body acc s\<close>
  reads \<open>s\<close> after the opening quote and returns the identifier and the rest of the
  text; \<open>qualified_name\<close> reads \<open>"schema"."table"\<close> and nothing more.
\<close>

fun quoted_body :: "string \<Rightarrow> string \<Rightarrow> (string \<times> string) option" where
  "quoted_body acc [] = None"
| "quoted_body acc [c] = (if c = dq then Some (acc, []) else None)"
| "quoted_body acc (c # d # cs) =
     (if c = dq then (if d = dq then quoted_body (acc @ [dq]) cs else Some (acc, d # cs))
      else quoted_body (acc @ [c]) (d # cs))"

definition quoted_identifier :: "string \<Rightarrow> (string \<times> string) option" where
  "quoted_identifier s =
     (case s of [] \<Rightarrow> None | c # cs \<Rightarrow> if c = dq then quoted_body [] cs else None)"

definition qualified_name :: "string \<Rightarrow> (string \<times> string) option" where
  "qualified_name s =
     (case quoted_identifier s of
        None \<Rightarrow> None
      | Some (schema, rest) \<Rightarrow>
          (case rest of
             [] \<Rightarrow> None
           | c # rest' \<Rightarrow>
               if c = CHR ''.'' then
                 (case quoted_identifier rest' of
                    None \<Rightarrow> None
                  | Some (table, rest'') \<Rightarrow> if rest'' = [] then Some (schema, table) else None)
               else None))"

section \<open>The database\<close>

text \<open>
  The tables the job touches. \<open>Price\<close> is \<open>public."Price"\<close> in the order of its \<open>id\<close>;
  \<open>Bounties s\<close> is the table \<open>"Bounties"\<close> of schema \<open>s\<close>; \<open>BountiesExtra\<close> is
  \<open>public."BountiesExtra"\<close>; \<open>live_query_tables\<close> holds the schemas that have the
  bookkeeping table.
\<close>

record Bounty =
  b_id :: int
  b_chain_id :: int
  b_amount :: string
  b_amount_sort :: string

record BountyExtra =
  x_bounty_id :: int
  x_chain_id :: int
  x_amount_sort :: string

record database =
  Price :: "PriceRow list"
  Bounties :: "string \<Rightarrow> Bounty list"
  BountiesExtra :: "BountyExtra list"
  live_query_tables :: "string set"

text \<open>The statements the job sends, with the texts and parameters it builds.\<close>

datatype statement =
    BEGIN
  | COMMIT
  | ROLLBACK
  | SELECT_latest_price
  | INSERT_price string string
  | CREATE_live_query_tables string
  | SELECT_bounties string
  | UPDATE_bounty string string int
  | SELECT_extra
  | UPDATE_extra string int int

datatype rows = NoRows | PriceRows "PriceRow list" | BountyRows "BountyRow list"

record QueryResult =
  rows :: rows
  rowCount :: nat

definition no_rows :: QueryResult where
  "no_rows = \<lparr>rows = NoRows, rowCount = 0\<rparr>"

definition price_rows :: "PriceRow list \<Rightarrow> QueryResult" where
  "price_rows rs = \<lparr>rows = PriceRows rs, rowCount = length rs\<rparr>"

definition bounty_rows :: "BountyRow list \<Rightarrow> QueryResult" where
  "bounty_rows rs = \<lparr>rows = BountyRows rs, rowCount = length rs\<rparr>"

text \<open>
  What a statement other than \<open>BEGIN\<close>, \<open>COMMIT\<close> and \<open>ROLLBACK\<close> does to the tables, and
  what it returns. An \<open>UPDATE\<close> changes every row its \<open>WHERE\<close> clause selects. The join of
  the sidecar variant pairs each row of \<open>BountiesExtra\<close> with the rows of
  \<open>public."Bounties"\<close> of the same \<open>id\<close> and \<open>chain_id\<close>. A table identifier that does not
  read as \<open>"schema"."table"\<close> with the expected table is an error.
\<close>

definition SqlError :: error where
  "SqlError = Error ''relation does not exist''"

definition join_extra :: "BountyExtra list \<Rightarrow> Bounty list \<Rightarrow> BountyRow list" where
  "join_extra extras bounties =
     concat (map (\<lambda>x. map (\<lambda>b. \<lparr>bounty_id = x_bounty_id x, amount = b_amount b,
                                   chain_id = x_chain_id x\<rparr>)
                      (filter (\<lambda>b. b_id b = x_bounty_id x \<and> b_chain_id b = x_chain_id x) bounties))
                 extras)"

definition exec :: "statement \<Rightarrow> database \<Rightarrow> error + database \<times> QueryResult" where
  "exec st db =
     (case st of
        SELECT_latest_price \<Rightarrow>
          Inr (db, price_rows (if Price db = [] then [] else [last (Price db)]))
      | INSERT_price eth degen \<Rightarrow>
          Inr (db\<lparr>Price := Price db @ [\<lparr>eth_usd = eth, degen_usd = degen\<rparr>]\<rparr>, no_rows)
      | CREATE_live_query_tables t \<Rightarrow>
          (case qualified_name t of
             None \<Rightarrow> Inl SqlError
           | Some (s, table) \<Rightarrow>
               if table = ''live_query_tables''
               then Inr (db\<lparr>live_query_tables := insert s (live_query_tables db)\<rparr>, no_rows)
               else Inl SqlError)
      | SELECT_bounties t \<Rightarrow>
          (case qualified_name t of
             None \<Rightarrow> Inl SqlError
           | Some (s, table) \<Rightarrow>
               if table = ''Bounties''
               then Inr (db, bounty_rows
                      (map (\<lambda>b. \<lparr>bounty_id = b_id b, amount = b_amount b, chain_id = b_chain_id b\<rparr>)
                         (Bounties db s)))
               else Inl SqlError)
      | UPDATE_bounty t amount_sort i \<Rightarrow>
          (case qualified_name t of
             None \<Rightarrow> Inl SqlError
           | Some (s, table) \<Rightarrow>
               if table = ''Bounties''
               then Inr (db\<lparr>Bounties := (Bounties db)
                          (s := map (\<lambda>b. if b_id b = i then b\<lparr>b_amount_sort := amount_sort\<rparr> else b)
                                  (Bounties db s))\<rparr>, no_rows)
               else Inl SqlError)
      | SELECT_extra \<Rightarrow>
          Inr (db, bounty_rows (join_extra (BountiesExtra db) (Bounties db ''public'')))
      | UPDATE_extra amount_sort i c \<Rightarrow>
          Inr (db\<lparr>BountiesExtra :=
                    map (\<lambda>x. if x_bounty_id x = i \<and> x_chain_id x = c
                              then x\<lparr>x_amount_sort := amount_sort\<rparr> else x)
                        (BountiesExtra db)\<rparr>, no_rows)
      | _ \<Rightarrow> Inr (db, no_rows))"

text \<open>
  The connection. \<open>committed\<close> is the database as other sessions see it, \<open>session\<close> as
  this connection sees it, its uncommitted changes included; \<open>transactionOpen\<close> tells
  whether the server has a transaction open for the connection; \<open>issued\<close> is the list
  of the statements sent so far.
\<close>

record client =
  committed :: database
  session :: database
  transactionOpen :: bool
  issued :: "statement list"

definition new_client :: "database \<Rightarrow> client" where
  "new_client db = \<lparr>committed = db, session = db, transactionOpen = False, issued = []\<rparr>"

text \<open>
  The world outside the job. \<open>faults k\<close> is the error with which statement number \<open>k\<close>
  sent on the connection fails, if it does (a fault of the network or of the server,
  whatever the statement): such a statement changes nothing.
\<close>

record env =
  DATABASE_URL :: "string option"
  deployment :: deployment_response
  connect :: "error option"
  eth_quotes :: "nat \<Rightarrow> attempt"
  degen_quotes :: "nat \<Rightarrow> attempt"
  faults :: "nat \<Rightarrow> error option"

text \<open>
  \<open>tryCatch(client.query(st))\<close>: the pair \<open>[error, result]\<close> is the sum. Outside a
  transaction a statement is committed at once.
\<close>

definition run_statement :: "statement \<Rightarrow> client \<Rightarrow> client \<times> (error + QueryResult)" where
  "run_statement st c =
     (case st of
        BEGIN \<Rightarrow> (c\<lparr>transactionOpen := True\<rparr>, Inr no_rows)
      | COMMIT \<Rightarrow> (c\<lparr>committed := session c, transactionOpen := False\<rparr>, Inr no_rows)
      | ROLLBACK \<Rightarrow> (c\<lparr>session := committed c, transactionOpen := False\<rparr>, Inr no_rows)
      | _ \<Rightarrow>
          (case exec st (session c) of
             Inl e \<Rightarrow> (c, Inl e)
           | Inr (db, r) \<Rightarrow>
               (c\<lparr>session := db,
                  committed := (if transactionOpen c then committed c else db)\<rparr>, Inr r)))"

definition query :: "env \<Rightarrow> client \<Rightarrow> statement \<Rightarrow> client \<times> (error + QueryResult)" where
  "query w c st =
     (case faults w (length (issued c)) of
        Some e \<Rightarrow> (c\<lparr>issued := issued c @ [st]\<rparr>, Inl e)
      | None \<Rightarrow> run_statement st (c\<lparr>issued := issued c @ [st]\<rparr>))"

text \<open>\<open>client.end()\<close>: the server drops what the connection has not committed.\<close>

definition client_end :: "client \<Rightarrow> client" where
  "client_end c = c\<lparr>session := committed c, transactionOpen := False\<rparr>"

section \<open>updateLatestPrice\<close>

text \<open>
  \<open>Promise.all\<close> of the two fetches rejects as soon as one of them does. Both reject
  with the same error, so their order in time does not show.
\<close>

definition promise_all :: "error + 'a \<Rightarrow> error + 'b \<Rightarrow> error + 'a \<times> 'b" where
  "promise_all a b =
     (case a of Inl e \<Rightarrow> Inl e
      | Inr x \<Rightarrow> (case b of Inl e \<Rightarrow> Inl e | Inr y \<Rightarrow> Inr (x, y)))"

definition latest_row :: "QueryResult \<Rightarrow> PriceRow option" where
  "latest_row r = (case rows r of PriceRows (row # _) \<Rightarrow> Some row | _ \<Rightarrow> None)"

definition updateLatestPrice :: "variant \<Rightarrow> env \<Rightarrow> client \<Rightarrow> client \<times> (error + UpdatedPrice)" where
  "updateLatestPrice v w c =
     (case query w c SELECT_latest_price of
        (c1, Inl latestError) \<Rightarrow> (c1, Inl latestError)
      | (c1, Inr latestResult) \<Rightarrow>
          (case promise_all (fst (fetchPrice (eth_quotes w))) (fst (fetchPrice (degen_quotes w))) of
             Inl e \<Rightarrow> (c1, Inl e)
           | Inr (currentPriceEth, currentPriceDegen) \<Rightarrow>
               (case shouldUpdatePrice v (latest_row latestResult) currentPriceEth currentPriceDegen of
                  Inl e \<Rightarrow> (c1, Inl e)
                | Inr False \<Rightarrow>
                    (case latest_row latestResult of
                       None \<Rightarrow> (c1, Inl TypeError)
                     | Some latestPrice \<Rightarrow>
                         (c1, Inr \<lparr>prices = \<lparr>ethUsd = Number (eth_usd latestPrice),
                                              degenUsd = Number (degen_usd latestPrice)\<rparr>,
                                    didUpdate = False\<rparr>))
                | Inr True \<Rightarrow>
                    (case query w c1 (INSERT_price (toString currentPriceEth)
                                                  (toString currentPriceDegen)) of
                       (c2, Inl insertError) \<Rightarrow> (c2, Inl insertError)
                     | (c2, Inr _) \<Rightarrow>
                         (c2, Inr \<lparr>prices = \<lparr>ethUsd = currentPriceEth,
                                              degenUsd = currentPriceDegen\<rparr>,
                                    didUpdate = True\<rparr>)))))"

section \<open>ensureLiveQueryTables and updateBountyAmounts\<close>

definition ensureLiveQueryTables :: "env \<Rightarrow> client \<Rightarrow> string \<Rightarrow> client \<times> (error + unit)" where
  "ensureLiveQueryTables w c schemaName =
     (case query w c (CREATE_live_query_tables (tableName schemaName)) of
        (c1, Inl createError) \<Rightarrow> (c1, Inl createError)
      | (c1, Inr _) \<Rightarrow> (c1, Inr ()))"

text \<open>
  The value a bounty row is given: \<open>amountValue * price\<close> as \<open>toFixed(5)\<close> prints it, with
  \<open>amountValue = Number(formatEther(BigInt(bounty.amount)))\<close> and the degen price for
  chain 666666666, the eth price for any other chain.
\<close>

definition amountSort :: "LatestPrice \<Rightarrow> string \<Rightarrow> int \<Rightarrow> error + string" where
  "amountSort ps raw chain =
     (case BigInt raw of
        Inl e \<Rightarrow> Inl e
      | Inr wei \<Rightarrow>
          Inr (toFixed 5 (num_mul (Number (formatEther wei))
                 (if chain = 666666666 then degenUsd ps else ethUsd ps))))"

definition select_statement :: "variant \<Rightarrow> string \<Rightarrow> statement" where
  "select_statement v schemaName =
     (case v of SchemaQualified \<Rightarrow> SELECT_bounties (bountiesTable schemaName)
      | Sidecar \<Rightarrow> SELECT_extra)"

definition update_statement :: "variant \<Rightarrow> string \<Rightarrow> string \<Rightarrow> BountyRow \<Rightarrow> statement" where
  "update_statement v schemaName amount_sort bounty =
     (case v of
        SchemaQualified \<Rightarrow> UPDATE_bounty (bountiesTable schemaName) amount_sort (bounty_id bounty)
      | Sidecar \<Rightarrow> UPDATE_extra amount_sort (bounty_id bounty) (chain_id bounty))"

text \<open>The \<open>for\<close> loop over the rows.\<close>

fun update_rows ::
  "variant \<Rightarrow> env \<Rightarrow> string \<Rightarrow> LatestPrice \<Rightarrow> client \<Rightarrow> BountyRow list \<Rightarrow> client \<times> (error + unit)"
where
  "update_rows v w schemaName ps c [] = (c, Inr ())"
| "update_rows v w schemaName ps c (bounty # rest) =
     (case amountSort ps (amount bounty) (chain_id bounty) of
        Inl e \<Rightarrow> (c, Inl e)
      | Inr amount_sort \<Rightarrow>
          (case query w c (update_statement v schemaName amount_sort bounty) of
             (c1, Inl updateError) \<Rightarrow> (c1, Inl updateError)
           | (c1, Inr _) \<Rightarrow> update_rows v w schemaName ps c1 rest))"

definition updateBountyAmounts ::
  "variant \<Rightarrow> env \<Rightarrow> client \<Rightarrow> LatestPrice \<Rightarrow> string \<Rightarrow> client \<times> (error + nat)" where
  "updateBountyAmounts v w c ps schemaName =
     (case query w c (select_statement v schemaName) of
        (c1, Inl bountyError) \<Rightarrow> (c1, Inl bountyError)
      | (c1, Inr bountyResult) \<Rightarrow>
          (case rows bountyResult of
             BountyRows rs \<Rightarrow>
               (case update_rows v w schemaName ps c1 rs of
                  (c2, Inl e) \<Rightarrow> (c2, Inl e)
                | (c2, Inr _) \<Rightarrow> (c2, Inr (rowCount bountyResult)))
           | _ \<Rightarrow>
               (c1, Inl (Error ''Something went wrong with bountyResult.rows. It`s undefined!''))))"

section \<open>main\<close>

text \<open>
  \<open>await ensureLiveQueryTables(client, schemaName)\<close> stands in the \<open>main\<close> of
  \<open>jobs/updatePrices.ts\<close> only; the other \<open>main\<close> goes on to the revaluation at once.
\<close>

definition ensure_step :: "variant \<Rightarrow> env \<Rightarrow> client \<Rightarrow> string \<Rightarrow> client \<times> (error + unit)" where
  "ensure_step v w c schemaName =
     (case v of
        SchemaQualified \<Rightarrow> ensureLiveQueryTables w c schemaName
      | Sidecar \<Rightarrow> (c, Inr ()))"

text \<open>
  The \<open>try\<close> block of \<open>main\<close>. A failure comes with the value that the variable
  \<open>transactionStarted\<close> has when it is thrown.
\<close>

definition main_try ::
  "variant \<Rightarrow> env \<Rightarrow> client \<Rightarrow> string \<Rightarrow> client \<times> (error \<times> bool + int)" where
  "main_try v w c schemaName =
     (case query w c BEGIN of
        (c1, Inl beginError) \<Rightarrow> (c1, Inl (beginError, False))
      | (c1, Inr _) \<Rightarrow>
          (case updateLatestPrice v w c1 of
             (c2, Inl e) \<Rightarrow> (c2, Inl (e, True))
           | (c2, Inr updated) \<Rightarrow>
               if \<not> didUpdate updated then
                 (case query w c2 ROLLBACK of
                    (c3, Inl rollbackError) \<Rightarrow> (c3, Inl (rollbackError, True))
                  | (c3, Inr _) \<Rightarrow> (c3, Inr 0))
               else
                 (case ensure_step v w c2 schemaName of
                    (c3, Inl e) \<Rightarrow> (c3, Inl (e, True))
                  | (c3, Inr _) \<Rightarrow>
                      (case updateBountyAmounts v w c3 (prices updated) schemaName of
                         (c4, Inl e) \<Rightarrow> (c4, Inl (e, True))
                       | (c4, Inr updatedCount) \<Rightarrow>
                           (case query w c4 COMMIT of
                              (c5, Inl commitError) \<Rightarrow> (c5, Inl (commitError, True))
                            | (c5, Inr _) \<Rightarrow> (c5, Inr 0))))))"

text \<open>
  The \<open>catch\<close> block: \<open>await client.query("ROLLBACK")\<close> is not wrapped in \<open>tryCatch\<close>, so a
  failing rollback throws from the handler in place of \<open>throw error\<close>. The \<open>finally\<close>
  block ends the connection on each path.
\<close>

definition main_catch :: "env \<Rightarrow> client \<Rightarrow> error \<Rightarrow> bool \<Rightarrow> client \<times> (error + int)" where
  "main_catch w c error transactionStarted =
     (if transactionStarted then
        (case query w c ROLLBACK of
           (c1, Inl rollbackError) \<Rightarrow> (c1, Inl rollbackError)
         | (c1, Inr _) \<Rightarrow> (c1, Inl error))
      else (c, Inl error))"

text \<open>
  The schema name: the deployment id in the schema-qualified variant; the other variant
  has none.
\<close>

definition resolve_schema :: "variant \<Rightarrow> env \<Rightarrow> error + string" where
  "resolve_schema v w =
     (case v of SchemaQualified \<Rightarrow> fetchDeploymentId (deployment w) | Sidecar \<Rightarrow> Inr [])"

definition main :: "variant \<Rightarrow> env \<Rightarrow> database \<Rightarrow> client \<times> (error + int)" where
  "main v w db =
     (if DATABASE_URL w = None \<or> DATABASE_URL w = Some [] then
        (new_client db, Inl (Error ''DATABASE_URL is required''))
      else
        (case resolve_schema v w of
           Inl e \<Rightarrow> (new_client db, Inl e)
         | Inr schemaName \<Rightarrow>
             (case connect w of
                Some connectError \<Rightarrow> (new_client db, Inl connectError)
              | None \<Rightarrow>
                  (case main_try v w (new_client db) schemaName of
                     (c, Inr code) \<Rightarrow> (client_end c, Inr code)
                   | (c, Inl (error, transactionStarted)) \<Rightarrow>
                       (case main_catch w c error transactionStarted of
                          (c1, r) \<Rightarrow> (client_end c1, r))))))"

section \<open>Notions for the properties of a run\<close>

definition is_update :: "statement \<Rightarrow> bool" where
  "is_update st =
     (case st of UPDATE_bounty _ _ _ \<Rightarrow> True | UPDATE_extra _ _ _ \<Rightarrow> True | _ \<Rightarrow> False)"

definition is_bounty_statement :: "statement \<Rightarrow> bool" where
  "is_bounty_statement st =
     (case st of
        SELECT_bounties _ \<Rightarrow> True
      | SELECT_extra \<Rightarrow> True
      | UPDATE_bounty _ _ _ \<Rightarrow> True
      | UPDATE_extra _ _ _ \<Rightarrow> True
      | _ \<Rightarrow> False)"

text \<open>The error a result carries, if any; \<open>thrown\<close> is the same for the \<open>try\<close> block.\<close>

definition failure :: "error + 'a \<Rightarrow> error option" where
  "failure r = (case r of Inl e \<Rightarrow> Some e | Inr _ \<Rightarrow> None)"

definition thrown :: "error \<times> bool + int \<Rightarrow> error option" where
  "thrown res = (case res of Inl (e, _) \<Rightarrow> Some e | Inr _ \<Rightarrow> None)"

text \<open>
  Sample worlds for the closed examples: a configured job whose connection is accepted,
  whose two price requests answer alike and whose statements fail as \<open>fs\<close> tells; and
  a database with the given snapshots, the given bounties in every schema, and the given
  sidecar rows.
\<close>

definition sample_world :: "(nat \<Rightarrow> error option) \<Rightarrow> (nat \<Rightarrow> attempt) \<Rightarrow> (nat \<Rightarrow> attempt) \<Rightarrow> env" where
  "sample_world fs eth degen =
     \<lparr>DATABASE_URL = Some ''postgres://db'',
      deployment = DeploymentResponse 200 (Inr (Some ''dep'')),
      connect = None, eth_quotes = eth, degen_quotes = degen, faults = fs\<rparr>"

definition sample_db :: "PriceRow list \<Rightarrow> Bounty list \<Rightarrow> BountyExtra list \<Rightarrow> database" where
  "sample_db snapshots bounties extras =
     \<lparr>Price = snapshots, Bounties = (\<lambda>s. bounties), BountiesExtra = extras,
      live_query_tables = {}\<rparr>"

text \<open>
  From \<open>c\<close> to \<open>c'\<close> statements were sent, and one that failed is the last of them, its
  error being \<open>err\<close>: the code never goes on after a failed statement.
\<close>

definition failfast :: "env \<Rightarrow> client \<Rightarrow> client \<Rightarrow> error option \<Rightarrow> bool" where
  "failfast w c c' err =
     (\<exists>ys. issued c' = issued c @ ys \<and>
        (\<forall>j<length ys. \<forall>e. faults w (length (issued c) + j) = Some e \<longrightarrow>
            Suc j = length ys \<and> err = Some e))"

text \<open>
  The rows of the bounty tables are identified as the data model has it: by \<open>id\<close> in the
  one table of the schema-qualified layout, by \<open>(id, chain_id)\<close> in \<open>public."Bounties"\<close> and
  by \<open>(bounty_id, chain_id)\<close> in \<open>public."BountiesExtra"\<close> in the sidecar layout.
\<close>

definition identified :: "variant \<Rightarrow> string \<Rightarrow> database \<Rightarrow> bool" where
  "identified v schemaName db =
     (case v of
        SchemaQualified \<Rightarrow> distinct (map b_id (Bounties db schemaName))
      | Sidecar \<Rightarrow>
          distinct (map (\<lambda>x. (x_bounty_id x, x_chain_id x)) (BountiesExtra db)) \<and>
          distinct (map (\<lambda>b. (b_id b, b_chain_id b)) (Bounties db ''public'')))"

section \<open>Evaluation on literals\<close>

lemma ndigits_0: "ndigits b 0 = 0"
  by (simp add: ndigits.simps)

lemma ndigits_1: "ndigits b (Suc 0) = (if b < 2 then 0 else 1)"
  by (simp add: ndigits.simps[of b "Suc 0"] ndigits.simps[of b 0])

lemma ndigits_numeral:
  "ndigits b (numeral k) = (if b < 2 then 0 else 1 + ndigits b (numeral k div b))"
  by (subst ndigits.simps) simp

lemma show_nat_0: "show_nat 0 = ''0''"
  by (simp add: show_nat.simps)

lemma show_nat_1: "show_nat (Suc 0) = ''1''"
  by (simp add: show_nat.simps)

lemma show_nat_numeral:
  "show_nat (numeral k) =
     (if (numeral k :: nat) < 10 then [''0123456789'' ! numeral k]
      else show_nat (numeral k div 10) @ [''0123456789'' ! (numeral k mod 10)])"
  by (subst show_nat.simps) simp

lemma replicate_numeral: "replicate (numeral k) x = x # replicate (pred_numeral k) x"
  by (simp add: numeral_eq_Suc)

lemmas num_eval =
  Number_def trim_def is_space_def NonDecimalIntegerLiteral_def StrDecimalLiteral_def
  unsigned_decimal_def is_digit_def digit_val_def exponent_part_def parse_digits_def
  fl_def fl_pos_def pack_def ulp_exponent_def magnitude_def round_half_even_def ndigits_0 ndigits_1 ndigits_numeral
  frac_of_def scale_def frac_le_def frac_less_def frac_mul_def frac_sub_def frac_div_def
  lit_def signed_inf_def show_nat_0 show_nat_1 show_nat_numeral digits_candidate_def
  shortest_digits.simps toString_pos_def toFixed_pos_def layout_def layout_digits_def
  point_before_def replicate_numeral BigInt_def formatUnits_def formatEther_def

lemma lit_0: "lit 0 = Fin 0 0"
  by (simp add: lit_def fl_def)

lemma num_gt_irrefl: "\<not> num_gt x x"
  by (cases x) (simp_all add: frac_less_def)

lemma positive_not_zero: "num_gt p (lit 0) \<Longrightarrow> \<not> strict_eq p (lit 0)"
  by (cases p) (auto simp: lit_0 frac_less_def frac_of_def split: if_splits)

section \<open>fetchPrice makes at most five requests\<close>

lemma fetchPrice_loop_fails:
  "0 < retries \<Longrightarrow> (\<forall>j<retries. attempt_price (quotes (i + j)) = None) \<Longrightarrow>
   fetchPrice_loop quotes i retries = (Inl (Error ''Can not fetch price''), i + retries)"
proof (induction retries arbitrary: i)
  case 0
  then show ?case by simp
next
  case (Suc n)
  have first: "attempt_price (quotes i) = None"
    using Suc.prems(2) [rule_format, of 0] by simp
  show ?case
  proof (cases "n = 0")
    case True
    with first show ?thesis
      by (subst fetchPrice_loop.simps) simp
  next
    case False
    have "\<forall>j<n. attempt_price (quotes (Suc i + j)) = None"
      using Suc.prems(2) by (auto dest: spec [of _ "Suc _"])
    with False have "fetchPrice_loop quotes (Suc i) n =
        (Inl (Error ''Can not fetch price''), Suc i + n)"
      using Suc.IH [of "Suc i"] by simp
    with first False show ?thesis
      by (subst fetchPrice_loop.simps) simp
  qed
qed

lemma fetchPrice_loop_succeeds:
  "k < retries \<Longrightarrow> attempt_price (quotes (i + k)) = Some price \<Longrightarrow>
   (\<forall>j<k. attempt_price (quotes (i + j)) = None) \<Longrightarrow>
   fetchPrice_loop quotes i retries = (Inr (Number price), Suc (i + k))"
proof (induction k arbitrary: i retries)
  case 0
  then show ?case
    by (subst fetchPrice_loop.simps) simp
next
  case (Suc k)
  have first: "attempt_price (quotes i) = None"
    using Suc.prems(3) [rule_format, of 0] by simp
  have rest: "\<forall>j<k. attempt_price (quotes (Suc i + j)) = None"
    using Suc.prems(3) by (auto dest: spec [of _ "Suc _"])
  have "fetchPrice_loop quotes (Suc i) (retries - 1) = (Inr (Number price), Suc (Suc i + k))"
    using Suc.IH [of "retries - 1" "Suc i"] Suc.prems(1,2) rest by simp
  with first Suc.prems(1) show ?case
    by (subst fetchPrice_loop.simps) simp
qed

text \<open>
  Claim C6. The price fetch makes at most five requests. If one of the first five
  requests succeeds, the fetch returns the price of the first that does, after that
  many requests; if the first five all fail, it fails with the error
  \<open>Can not fetch price\<close> after exactly five requests.
\<close>

theorem fetchPrice_five_attempts:
  "snd (fetchPrice quotes) \<le> 5 \<and>
   (\<forall>k price. k < 5 \<and> attempt_price (quotes k) = Some price \<and>
        (\<forall>i<k. attempt_price (quotes i) = None) \<longrightarrow>
      fetchPrice quotes = (Inr (Number price), Suc k)) \<and>
   ((\<forall>i<5. attempt_price (quotes i) = None) \<longrightarrow>
      fetchPrice quotes = (Inl (Error ''Can not fetch price''), 5))"
proof -
  have ok: "fetchPrice quotes = (Inr (Number price), Suc k)"
    if "k < 5" "attempt_price (quotes k) = Some price"
       "\<forall>i<k. attempt_price (quotes i) = None" for k price
    using fetchPrice_loop_succeeds [of k 5 quotes 0 price] that
    by (simp add: fetchPrice_def)
  have ko: "fetchPrice quotes = (Inl (Error ''Can not fetch price''), 5)"
    if "\<forall>i<5. attempt_price (quotes i) = None"
    using fetchPrice_loop_fails [of 5 quotes 0] that by (simp add: fetchPrice_def)
  have "snd (fetchPrice quotes) \<le> 5"
  proof (cases "\<forall>i<5. attempt_price (quotes i) = None")
    case True
    then show ?thesis by (simp add: ko)
  next
    case False
    define k where "k = (LEAST i. attempt_price (quotes i) \<noteq> None)"
    from False obtain i where i: "i < 5" "attempt_price (quotes i) \<noteq> None" by blast
    have k1: "attempt_price (quotes k) \<noteq> None"
      unfolding k_def using i(2) by (rule LeastI)
    have k2: "k \<le> i" unfolding k_def using i(2) by (rule Least_le)
    have k3: "\<forall>j<k. attempt_price (quotes j) = None"
      unfolding k_def using not_less_Least by blast
    from k1 obtain price where "attempt_price (quotes k) = Some price" by blast
    with ok [of k price] k2 i(1) k3 show ?thesis by simp
  qed
  with ok ko show ?thesis by blast
qed

theorem fetchPrice_five_attempts_witness:
  "fetchPrice (\<lambda>i. if i = 2 then Body (Some ''7'') else FetchRejects) = (Inr (Number ''7''), 3) \<and>
   fetchPrice (\<lambda>i. if i = 7 then Body (Some ''7'') else JsonRejects)
     = (Inl (Error ''Can not fetch price''), 5)"
proof -
  let ?q = "\<lambda>i::nat. if i = 2 then Body (Some ''7'') else FetchRejects"
  let ?r = "\<lambda>i::nat. if i = 7 then Body (Some ''7'') else JsonRejects"
  have "(2::nat) < 5 \<and> attempt_price (?q 2) = Some ''7'' \<and> (\<forall>i<2. attempt_price (?q i) = None)"
    by (simp add: attempt_price_def)
  then have 1: "fetchPrice ?q = (Inr (Number ''7''), Suc 2)"
    using fetchPrice_five_attempts [of ?q] by blast
  have "\<forall>i<5. attempt_price (?r i) = None"
    by (simp add: attempt_price_def)
  then have 2: "fetchPrice ?r = (Inl (Error ''Can not fetch price''), 5)"
    using fetchPrice_five_attempts [of ?r] by blast
  from 1 2 show ?thesis by simp
qed

section \<open>Quotes in a schema name are neutralized\<close>

lemma quoted_body_safeSchema:
  "rest = [] \<or> hd rest \<noteq> dq \<Longrightarrow>
   quoted_body acc (safeSchema s @ dq # rest) = Some (acc @ s, rest)"
proof (induction s arbitrary: acc)
  case Nil
  then show ?case
    by (cases rest) (simp_all add: safeSchema_def)
next
  case (Cons c s)
  have step: "safeSchema (x # s) = (if x = dq then [dq, dq] else [x]) @ safeSchema s" for x
    by (simp add: safeSchema_def)
  show ?case
  proof (cases "c = dq")
    case True
    then show ?thesis
      using Cons.IH [OF Cons.prems, of "acc @ [dq]"] by (simp add: step)
  next
    case False
    obtain d ds where tail: "safeSchema s @ dq # rest = d # ds"
      by (cases "safeSchema s @ dq # rest") simp_all
    have "quoted_body acc (c # d # ds) = quoted_body (acc @ [c]) (d # ds)"
      using False by simp
    then show ?thesis
      using Cons.IH [OF Cons.prems, of "acc @ [c]"] False tail by (simp add: step)
  qed
qed

lemma quoted_identifier_plain:
  "dq \<notin> set t \<Longrightarrow> quoted_identifier (dq # t @ [dq]) = Some (t, [])"
proof -
  assume "dq \<notin> set t"
  then have "safeSchema t = t"
    by (induction t) (auto simp: safeSchema_def)
  then show ?thesis
    using quoted_body_safeSchema [of "[]" "[]" t] by (simp add: quoted_identifier_def)
qed

lemma qualified_name_safeSchema:
  "dq \<notin> set t \<Longrightarrow>
   qualified_name ([dq] @ safeSchema s @ [dq] @ ''.'' @ [dq] @ t @ [dq]) = Some (s, t)"
proof -
  assume t: "dq \<notin> set t"
  have dot: "CHR ''.'' \<noteq> dq"
    by (simp add: dq_def)
  then have "quoted_identifier ([dq] @ safeSchema s @ [dq] @ ''.'' @ [dq] @ t @ [dq])
      = Some (s, CHR ''.'' # dq # t @ [dq])"
    using quoted_body_safeSchema [of "CHR ''.'' # dq # t @ [dq]" "[]" s]
    by (simp add: quoted_identifier_def)
  then show ?thesis
    using quoted_identifier_plain [OF t] by (simp add: qualified_name_def)
qed

lemma qualified_tableName: "qualified_name (tableName s) = Some (s, ''live_query_tables'')"
  unfolding tableName_def by (rule qualified_name_safeSchema) (simp add: dq_def)

lemma qualified_bountiesTable: "qualified_name (bountiesTable s) = Some (s, ''Bounties'')"
  unfolding bountiesTable_def by (rule qualified_name_safeSchema) (simp add: dq_def)

text \<open>
  Claim C9. For every schema name, the escaping step replaces each double quote by two,
  and the quoted identifier built from it reads back, as SQL reads a quoted identifier,
  as the whole schema name and nothing else: no quote of the name ends the identifier.
  So both table identifiers denote the table of exactly that schema.
\<close>

theorem quotes_neutralized:
  "safeSchema s = concat (map (\<lambda>c. if c = dq then [dq, dq] else [c]) s) \<and>
   quoted_identifier ([dq] @ safeSchema s @ [dq]) = Some (s, []) \<and>
   qualified_name (tableName s) = Some (s, ''live_query_tables'') \<and>
   qualified_name (bountiesTable s) = Some (s, ''Bounties'')"
  using quoted_body_safeSchema [of "[]" "[]" s]
  by (simp add: qualified_tableName qualified_bountiesTable quoted_identifier_def safeSchema_def)

section \<open>The update decision\<close>

lemma round_half_even_nonneg: "0 \<le> fst y \<Longrightarrow> 0 < snd y \<Longrightarrow> 0 \<le> round_half_even y"
  by (simp add: round_half_even_def Let_def pos_imp_zdiv_nonneg_iff)

lemma scale_positive: "0 < b \<Longrightarrow> 0 < n \<Longrightarrow> 0 < fst (scale b n k) \<and> 0 < snd (scale b n k)"
  by (simp add: scale_def)

lemma num_abs_neg: "num_abs (num_neg y) = num_abs y"
  by (cases y) simp_all

lemma pack_abs: "0 \<le> m \<Longrightarrow> num_abs (pack m e) = pack m e"
  by (simp add: pack_def)

lemma fl_pos_abs: "0 \<le> fst a \<Longrightarrow> 0 < snd a \<Longrightarrow> num_abs (fl_pos a) = fl_pos a"
proof -
  assume a: "0 \<le> fst a" "0 < snd a"
  have "0 \<le> fst (frac_mul a (scale 2 1 (- ulp_exponent a)))"
    "0 < snd (frac_mul a (scale 2 1 (- ulp_exponent a)))"
    using a scale_positive [of 2 1 "- ulp_exponent a"] by (simp_all add: frac_mul_def)
  then have "0 \<le> round_half_even (frac_mul a (scale 2 1 (- ulp_exponent a)))"
    by (rule round_half_even_nonneg)
  then show ?thesis
    unfolding fl_pos_def by (rule pack_abs)
qed

lemma fl_abs:
  assumes "0 < snd x"
  shows "num_abs (fl x) = fl (\<bar>fst x\<bar>, snd x)"
proof -
  consider "fst x = 0" | "0 < fst x" | "fst x < 0" by linarith
  then show ?thesis
  proof cases
    case 1
    then show ?thesis by (simp add: fl_def)
  next
    case 2
    then have "num_abs (fl_pos x) = fl_pos x"
      using assms by (simp add: fl_pos_abs)
    with 2 show ?thesis by (simp add: fl_def)
  next
    case 3
    then have "num_abs (fl_pos (- fst x, snd x)) = fl_pos (- fst x, snd x)"
      using assms by (simp add: fl_pos_abs)
    with 3 show ?thesis by (simp add: fl_def num_abs_neg)
  qed
qed

lemma frac_of_snd_positive: "0 < snd (frac_of m e)"
  by (simp add: frac_of_def)

lemma frac_of_abs: "frac_of \<bar>m\<bar> e = (\<bar>fst (frac_of m e)\<bar>, snd (frac_of m e))"
  by (simp add: frac_of_def abs_mult)

lemma lit_100: "lit 100 = Fin 7036874417766400 (- 46)"
  by (simp add: num_eval split del: if_split)

lemma lit_5: "lit 5 = Fin 5629499534213120 (- 50)"
  by (simp add: num_eval split del: if_split)

lemma lit_10: "lit 10 = Fin 5629499534213120 (- 49)"
  by (simp add: num_eval split del: if_split)

lemma abs_times_100: "num_abs (num_mul x (lit 100)) = num_mul (num_abs x) (lit 100)"
proof (cases x)
  case (Fin m e)
  have "0 < fst (frac_of 7036874417766400 (- 46))"
    by (simp add: frac_of_def)
  then have "\<bar>fst (frac_of m e) * fst (frac_of 7036874417766400 (- 46))\<bar>
      = \<bar>fst (frac_of m e)\<bar> * fst (frac_of 7036874417766400 (- 46))"
    by (simp add: abs_mult)
  then show ?thesis
    using fl_abs [of "frac_mul (frac_of m e) (frac_of 7036874417766400 (- 46))"]
    by (simp add: Fin lit_100 frac_mul_def frac_of_snd_positive frac_of_abs)
qed (simp_all add: lit_100 signed_inf_def)

lemma percentChange_formula:
  "percentChange current previous =
     (if strict_eq previous (lit 0) then Inl (Error ''Previous price === 0'')
      else Inr (num_mul (num_abs (num_div (num_sub current previous) previous)) (lit 100)))"
  by (simp add: percentChange_def abs_times_100)

text \<open>
  Claim C3, as stated, fails at the boundary: from a previous price of \<open>"1"\<close> to a quote
  of \<open>"1.1"\<close> the change is 10 per cent exactly, yet the subtraction, the division and
  the product of the job round to \<open>10.000000000000009\<close>, which is greater than 10, and
  the decision is true.
\<close>

lemma Number_1: "Number ''1'' = Fin 4503599627370496 (- 52)"
  by (simp add: num_eval split del: if_split)

lemma Number_1_1: "Number ''1.1'' = Fin 4953959590107546 (- 52)"
  by (simp add: num_eval split del: if_split)

lemma percentChange_1_1:
  "percentChange (Fin 4953959590107546 (- 52)) (Fin 4503599627370496 (- 52))
     = Inr (Fin 5629499534213125 (- 49))"
  unfolding percentChange_def lit_0 lit_100
  by (simp add: num_eval split del: if_split)

theorem exact_threshold_change_updates:
  "unsigned_decimal ''1.1'' = Some (11, 10) \<and> unsigned_decimal ''1'' = Some (1, 1) \<and>
   frac_mul (frac_div (frac_sub (11, 10) (1, 1)) (1, 1)) (100, 1) = (100, 10) \<and>
   percentChange (Number ''1.1'') (Number ''1'') = Inr (Number ''10.000000000000009'') \<and>
   shouldUpdatePrice SchemaQualified (Some \<lparr>eth_usd = ''1'', degen_usd = ''1''\<rparr>)
     (Number ''1.1'') (Number ''1'') = Inr True"
proof -
  have d: "unsigned_decimal ''1.1'' = Some (11, 10)" "unsigned_decimal ''1'' = Some (1, 1)"
    by (simp_all add: num_eval split del: if_split)
  have e: "frac_mul (frac_div (frac_sub (11, 10) (1, 1)) (1, 1)) (100, 1) = (100, 10)"
    by (simp add: frac_mul_def frac_div_def frac_sub_def)
  have n: "Number ''10.000000000000009'' = Fin 5629499534213125 (- 49)"
    by (simp add: num_eval split del: if_split)
  have g: "num_gt (Fin 5629499534213125 (- 49)) (lit 10)"
    by (simp add: lit_10 frac_less_def frac_of_def)
  show ?thesis
    using d e n g
    by (simp add: Number_1 Number_1_1 percentChange_1_1 shouldUpdatePrice_def threshold_def)
qed

text \<open>
  Claim C3, amended. The update decision is true when there is no previous snapshot.
  With a previous snapshot of positive prices it is true if and only if, for one of the
  two currencies, the binary64 number \<open>Math.abs(((current - previous) / previous) * 100)\<close>,
  each operation rounded, is greater than the threshold of the variant, 10 in the
  schema-qualified one and 5 in the sidecar one; two computed changes equal to the
  threshold give false.
\<close>

theorem shouldUpdatePrice_computed_change:
  assumes "num_gt (Number (eth_usd row)) (lit 0)"
    and "num_gt (Number (degen_usd row)) (lit 0)"
  shows "shouldUpdatePrice v None currentEth currentDegen = Inr True \<and>
    shouldUpdatePrice v (Some row) currentEth currentDegen =
      Inr (num_gt (num_abs (num_mul (num_div (num_sub currentEth (Number (eth_usd row)))
                                       (Number (eth_usd row))) (lit 100)))
             (case v of SchemaQualified \<Rightarrow> lit 10 | Sidecar \<Rightarrow> lit 5) \<or>
           num_gt (num_abs (num_mul (num_div (num_sub currentDegen (Number (degen_usd row)))
                                       (Number (degen_usd row))) (lit 100)))
             (case v of SchemaQualified \<Rightarrow> lit 10 | Sidecar \<Rightarrow> lit 5)) \<and>
    (num_abs (num_mul (num_div (num_sub currentEth (Number (eth_usd row)))
                         (Number (eth_usd row))) (lit 100))
       = (case v of SchemaQualified \<Rightarrow> lit 10 | Sidecar \<Rightarrow> lit 5) \<and>
     num_abs (num_mul (num_div (num_sub currentDegen (Number (degen_usd row)))
                         (Number (degen_usd row))) (lit 100))
       = (case v of SchemaQualified \<Rightarrow> lit 10 | Sidecar \<Rightarrow> lit 5) \<longrightarrow>
     shouldUpdatePrice v (Some row) currentEth currentDegen = Inr False)"
proof -
  have eth: "\<not> strict_eq (Number (eth_usd row)) (lit 0)"
    using assms(1) by (rule positive_not_zero)
  have degen: "\<not> strict_eq (Number (degen_usd row)) (lit 0)"
    using assms(2) by (rule positive_not_zero)
  have t: "threshold v = (case v of SchemaQualified \<Rightarrow> lit 10 | Sidecar \<Rightarrow> lit 5)"
    by (simp add: threshold_def)
  show ?thesis
    using eth degen unfolding t [symmetric]
    by (auto simp: shouldUpdatePrice_def percentChange_def num_gt_irrefl)
qed

theorem shouldUpdatePrice_computed_change_witness:
  "num_gt (Number ''100'') (lit 0) \<and> num_gt (Number ''1'') (lit 0) \<and>
   num_abs (num_mul (num_div (num_sub (Number ''110'') (Number ''100'')) (Number ''100'')) (lit 100))
     = lit 10 \<and>
   shouldUpdatePrice SchemaQualified (Some \<lparr>eth_usd = ''100'', degen_usd = ''1''\<rparr>)
     (Number ''110'') (Number ''1'') = Inr False \<and>
   shouldUpdatePrice Sidecar (Some \<lparr>eth_usd = ''100'', degen_usd = ''1''\<rparr>)
     (Number ''110'') (Number ''1'') = Inr True"
proof -
  have n100: "Number ''100'' = Fin 7036874417766400 (- 46)"
    by (simp add: num_eval split del: if_split)
  have n110: "Number ''110'' = Fin 7740561859543040 (- 46)"
    by (simp add: num_eval split del: if_split)
  have n1: "Number ''1'' = Fin 4503599627370496 (- 52)"
    by (simp add: num_eval split del: if_split)
  have h1: "num_gt (Number (eth_usd \<lparr>eth_usd = ''100'', degen_usd = ''1''\<rparr>)) (lit 0)"
    by (simp add: n100 lit_0 frac_less_def frac_of_def)
  have h2: "num_gt (Number (degen_usd \<lparr>eth_usd = ''100'', degen_usd = ''1''\<rparr>)) (lit 0)"
    by (simp add: n1 lit_0 frac_less_def frac_of_def)
  have pe: "num_abs (num_mul (num_div (num_sub (Number ''110'') (Number ''100'')) (Number ''100''))
      (lit 100)) = lit 10"
    unfolding n110 n100 lit_10 lit_100
    by (simp add: num_eval split del: if_split)
  have pd: "num_abs (num_mul (num_div (num_sub (Number ''1'') (Number ''1'')) (Number ''1''))
      (lit 100)) = lit 0"
    unfolding n1 lit_0 lit_100
    by (simp add: num_eval split del: if_split)
  have g: "\<not> num_gt (lit 0) (lit 10)" "\<not> num_gt (lit 0) (lit 5)" "num_gt (lit 10) (lit 5)"
    by (simp_all add: lit_10 lit_5 lit_0 frac_less_def frac_of_def)
  from shouldUpdatePrice_computed_change
    [OF h1 h2, of SchemaQualified "Number ''110''" "Number ''1''"]
    shouldUpdatePrice_computed_change [OF h1 h2, of Sidecar "Number ''110''" "Number ''1''"]
  show ?thesis
    using h1 h2 pe pd g by (simp add: num_gt_irrefl)
qed

text \<open>
  Claim C7, as stated, fails: with a previous degen price of zero and an eth change
  above the threshold, the decision is true and no error is raised, because \<open>||\<close> does
  not evaluate the degen comparison.
\<close>

theorem zero_degen_price_unnoticed:
  "strict_eq (Number ''0'') (lit 0) \<and>
   shouldUpdatePrice SchemaQualified (Some \<lparr>eth_usd = ''100'', degen_usd = ''0''\<rparr>)
     (Number ''200'') (Number ''1'') = Inr True"
proof -
  have n100: "Number ''100'' = Fin 7036874417766400 (- 46)"
    by (simp add: num_eval split del: if_split)
  have n200: "Number ''200'' = Fin 7036874417766400 (- 45)"
    by (simp add: num_eval split del: if_split)
  have n0: "Number ''0'' = Fin 0 0"
    by (simp add: num_eval split del: if_split)
  have l10: "lit 10 = Fin 5629499534213120 (- 49)"
    by (simp add: num_eval split del: if_split)
  have pe: "percentChange (Number ''200'') (Number ''100'') = Inr (lit 100)"
    unfolding n200 n100 percentChange_def lit_0 lit_100
    by (simp add: num_eval split del: if_split)
  have "num_gt (lit 100) (lit 10)"
    by (simp add: l10 lit_100 frac_less_def frac_of_def)
  then show ?thesis
    by (simp add: shouldUpdatePrice_def pe threshold_def n0 lit_0)
qed

text \<open>
  Claim C7, amended. With a previous snapshot, a percent change is
  \<open>abs((current - previous) / previous) * 100\<close>, and \<open>percentChange\<close> fails when the
  previous price is zero. The eth change is computed first: the decision fails when the
  previous eth price is zero; it is true, without looking at degen, when the eth change
  exceeds the threshold; otherwise the degen change is computed, and the decision fails
  when the previous degen price is zero and else tells whether the degen change exceeds
  the threshold.
\<close>

theorem percentChange_short_circuit:
  "percentChange current previous =
     (if strict_eq previous (lit 0) then Inl (Error ''Previous price === 0'')
      else Inr (num_mul (num_abs (num_div (num_sub current previous) previous)) (lit 100))) \<and>
   (strict_eq (Number (eth_usd row)) (lit 0) \<longrightarrow>
      shouldUpdatePrice v (Some row) currentEth currentDegen
        = Inl (Error ''Previous price === 0'')) \<and>
   (\<forall>changeEth. percentChange currentEth (Number (eth_usd row)) = Inr changeEth \<and>
      num_gt changeEth (threshold v) \<longrightarrow>
      shouldUpdatePrice v (Some row) currentEth currentDegen = Inr True) \<and>
   (\<forall>changeEth. percentChange currentEth (Number (eth_usd row)) = Inr changeEth \<and>
      \<not> num_gt changeEth (threshold v) \<and> strict_eq (Number (degen_usd row)) (lit 0) \<longrightarrow>
      shouldUpdatePrice v (Some row) currentEth currentDegen
        = Inl (Error ''Previous price === 0'')) \<and>
   (\<forall>changeEth changeDegen. percentChange currentEth (Number (eth_usd row)) = Inr changeEth \<and>
      \<not> num_gt changeEth (threshold v) \<and>
      percentChange currentDegen (Number (degen_usd row)) = Inr changeDegen \<longrightarrow>
      shouldUpdatePrice v (Some row) currentEth currentDegen
        = Inr (num_gt changeDegen (threshold v)))"
  by (auto simp: shouldUpdatePrice_def percentChange_formula)

theorem percentChange_short_circuit_witness:
  "strict_eq (Number ''0'') (lit 0) \<and>
   shouldUpdatePrice SchemaQualified (Some \<lparr>eth_usd = ''0'', degen_usd = ''1''\<rparr>)
     (Number ''200'') (Number ''1'') = Inl (Error ''Previous price === 0'') \<and>
   shouldUpdatePrice SchemaQualified (Some \<lparr>eth_usd = ''100'', degen_usd = ''0''\<rparr>)
     (Number ''100'') (Number ''1'') = Inl (Error ''Previous price === 0'')"
proof -
  have n100: "Number ''100'' = Fin 7036874417766400 (- 46)"
    by (simp add: num_eval split del: if_split)
  have n0: "Number ''0'' = Fin 0 0"
    by (simp add: num_eval split del: if_split)
  have l10: "lit 10 = Fin 5629499534213120 (- 49)"
    by (simp add: num_eval split del: if_split)
  have z: "strict_eq (Number ''0'') (lit 0)"
    by (simp add: n0 lit_0)
  have pe: "percentChange (Number ''100'') (Number ''100'') = Inr (lit 0)"
    unfolding n100 percentChange_def lit_0 lit_100
    by (simp add: num_eval split del: if_split)
  have small: "\<not> num_gt (lit 0) (threshold SchemaQualified)"
    by (simp add: threshold_def l10 lit_0 frac_less_def frac_of_def)
  have 1: "shouldUpdatePrice SchemaQualified (Some \<lparr>eth_usd = ''0'', degen_usd = ''1''\<rparr>)
     (Number ''200'') (Number ''1'') = Inl (Error ''Previous price === 0'')"
    using percentChange_short_circuit
      [where v = SchemaQualified and row = "\<lparr>eth_usd = ''0'', degen_usd = ''1''\<rparr>"
         and currentEth = "Number ''200''" and currentDegen = "Number ''1''"] z
    by simp
  have 2: "shouldUpdatePrice SchemaQualified (Some \<lparr>eth_usd = ''100'', degen_usd = ''0''\<rparr>)
     (Number ''100'') (Number ''1'') = Inl (Error ''Previous price === 0'')"
    using percentChange_short_circuit
      [where v = SchemaQualified and row = "\<lparr>eth_usd = ''100'', degen_usd = ''0''\<rparr>"
         and currentEth = "Number ''100''" and currentDegen = "Number ''1''"]
      z pe small
    by auto
  from z 1 2 show ?thesis by simp
qed

section \<open>Statements on the connection\<close>

lemma query_cases:
  assumes "query w c st = (c', r)"
  obtains (fault) e where "faults w (length (issued c)) = Some e" "r = Inl e"
      "c' = c\<lparr>issued := issued c @ [st]\<rparr>"
    | (sent) "faults w (length (issued c)) = None"
      "run_statement st (c\<lparr>issued := issued c @ [st]\<rparr>) = (c', r)"
  using assms by (cases "faults w (length (issued c))") (auto simp: query_def)

lemma run_statement_issued: "run_statement st c = (c', r) \<Longrightarrow> issued c' = issued c"
  by (cases st) (auto simp: run_statement_def split: sum.splits)

lemma query_issued: "query w c st = (c', r) \<Longrightarrow> issued c' = issued c @ [st]"
  by (erule query_cases) (auto dest: run_statement_issued)

lemma run_statement_failed:
  "run_statement st c = (c', Inl e) \<Longrightarrow> c' = c"
  by (cases st) (auto simp: run_statement_def split: sum.splits)

lemma query_failed:
  "query w c st = (c', Inl e) \<Longrightarrow>
   committed c' = committed c \<and> session c' = session c \<and> transactionOpen c' = transactionOpen c"
  by (erule query_cases) (auto dest: run_statement_failed)

lemma run_statement_keeps:
  "run_statement st c = (c', r) \<Longrightarrow> st \<noteq> COMMIT \<Longrightarrow> st \<noteq> ROLLBACK \<Longrightarrow> transactionOpen c \<Longrightarrow>
   transactionOpen c' \<and> committed c' = committed c"
  by (cases st) (auto simp: run_statement_def split: sum.splits)

lemma query_keeps:
  "query w c st = (c', r) \<Longrightarrow> st \<noteq> COMMIT \<Longrightarrow> st \<noteq> ROLLBACK \<Longrightarrow> transactionOpen c \<Longrightarrow>
   transactionOpen c' \<and> committed c' = committed c"
  by (erule query_cases) (auto dest: run_statement_keeps)

lemma query_rollback:
  "query w c ROLLBACK = (c', r) \<Longrightarrow> committed c' = committed c"
  by (erule query_cases) (auto simp: run_statement_def)

lemma query_begin:
  "query w c BEGIN = (c', Inr r) \<Longrightarrow>
   transactionOpen c' \<and> committed c' = committed c \<and> session c' = session c"
  by (erule query_cases) (auto simp: run_statement_def)

subsection \<open>No statement follows a failed one\<close>

lemma failure_Inl: "failure (Inl e) = Some e"
  by (simp add: failure_def)

lemma failure_Inr: "failure (Inr x) = None"
  by (simp add: failure_def)

lemma failfast_query: "query w c st = (c', r) \<Longrightarrow> failfast w c c' (failure r)"
  unfolding failfast_def
  by (rule exI [of _ "[st]"]) (auto elim!: query_cases simp: failure_def dest: run_statement_issued)

lemma failfast_weaken: "failfast w c c' None \<Longrightarrow> failfast w c c' err"
  unfolding failfast_def by fastforce

lemma failfast_trans:
  assumes "failfast w c c1 None" and "failfast w c1 c2 err"
  shows "failfast w c c2 err"
proof -
  from assms(1) obtain ys where ys: "issued c1 = issued c @ ys"
    and q1: "\<forall>j<length ys. faults w (length (issued c) + j) = None"
    unfolding failfast_def by fastforce
  from assms(2) obtain zs where zs: "issued c2 = issued c1 @ zs"
    and q2: "\<forall>j<length zs. \<forall>e. faults w (length (issued c1) + j) = Some e \<longrightarrow>
        Suc j = length zs \<and> err = Some e"
    unfolding failfast_def by blast
  have "\<forall>j<length (ys @ zs). \<forall>e. faults w (length (issued c) + j) = Some e \<longrightarrow>
      Suc j = length (ys @ zs) \<and> err = Some e"
  proof (intro allI impI)
    fix j e
    assume j: "j < length (ys @ zs)" and f: "faults w (length (issued c) + j) = Some e"
    show "Suc j = length (ys @ zs) \<and> err = Some e"
    proof (cases "j < length ys")
      case True
      with q1 f show ?thesis by simp
    next
      case False
      then have "j - length ys < length zs"
        "length (issued c1) + (j - length ys) = length (issued c) + j"
        using j ys by simp_all
      with q2 f have "Suc (j - length ys) = length zs \<and> err = Some e"
        by metis
      with False show ?thesis by auto
    qed
  qed
  with ys zs show ?thesis
    unfolding failfast_def by (intro exI [of _ "ys @ zs"]) simp
qed

lemma failfast_then_query:
  "failfast w c c1 None \<Longrightarrow> query w c1 st = (c2, r) \<Longrightarrow> failfast w c c2 (failure r)"
  by (blast intro: failfast_trans failfast_query)

lemma failfast_same: "issued c' = issued c \<Longrightarrow> failfast w c c' err"
  unfolding failfast_def by simp


section \<open>The steps of a run\<close>

lemma updateLatestPrice_cases:
  assumes "updateLatestPrice v w c = (c', r)"
  obtains (select_failed) e where "query w c SELECT_latest_price = (c', Inl e)" "r = Inl e"
    | (stopped) res e where "query w c SELECT_latest_price = (c', Inr res)" "r = Inl e"
    | (unchanged) res u where "query w c SELECT_latest_price = (c', Inr res)" "r = Inr u"
        "\<not> didUpdate u"
    | (insert_failed) c1 res a b e where "query w c SELECT_latest_price = (c1, Inr res)"
        "query w c1 (INSERT_price a b) = (c', Inl e)" "r = Inl e"
    | (inserted) c1 res a b res' u where "query w c SELECT_latest_price = (c1, Inr res)"
        "query w c1 (INSERT_price a b) = (c', Inr res')" "r = Inr u" "didUpdate u"
  using assms unfolding updateLatestPrice_def
  by (auto split: prod.splits sum.splits bool.splits option.splits)

lemma updateLatestPrice_keeps:
  assumes "updateLatestPrice v w c = (c', r)" and "transactionOpen c"
  shows "transactionOpen c' \<and> committed c' = committed c"
  using assms(1)
proof (cases rule: updateLatestPrice_cases)
  case (insert_failed c1 res a b e)
  from query_keeps [OF insert_failed(1)] assms(2)
  have "transactionOpen c1 \<and> committed c1 = committed c" by simp
  with query_keeps [OF insert_failed(2)] show ?thesis by simp
next
  case (inserted c1 res a b res' u)
  from query_keeps [OF inserted(1)] assms(2)
  have "transactionOpen c1 \<and> committed c1 = committed c" by simp
  with query_keeps [OF inserted(2)] show ?thesis by simp
qed (use assms(2) in \<open>auto dest: query_keeps\<close>)

lemma updateLatestPrice_failfast:
  assumes "updateLatestPrice v w c = (c', r)"
  shows "failfast w c c' (failure r)"
  using assms
proof (cases rule: updateLatestPrice_cases)
  case (select_failed e)
  then show ?thesis using failfast_query [of w c SELECT_latest_price c' "Inl e"]
    by (simp add: failure_Inl)
next
  case (stopped res e)
  then show ?thesis
    using failfast_query [of w c SELECT_latest_price c' "Inr res"]
    by (simp add: failure_def failfast_weaken)
next
  case (unchanged res u)
  then show ?thesis
    using failfast_query [of w c SELECT_latest_price c' "Inr res"]
    by (simp add: failure_def failfast_weaken)
next
  case (insert_failed c1 res a b e)
  from failfast_query [OF insert_failed(1)] have "failfast w c c1 None"
    by (simp add: failure_def)
  from failfast_then_query [OF this insert_failed(2)] insert_failed(3)
  show ?thesis by (simp add: failure_Inl)
next
  case (inserted c1 res a b res' u)
  from failfast_query [OF inserted(1)] have "failfast w c c1 None"
    by (simp add: failure_def)
  from failfast_then_query [OF this inserted(2)] inserted(3)
  show ?thesis by (simp add: failure_def)
qed

lemma ensureLiveQueryTables_query:
  "ensureLiveQueryTables w c s = (c', r) \<Longrightarrow>
   \<exists>q. query w c (CREATE_live_query_tables (tableName s)) = (c', q) \<and> failure q = failure r"
  unfolding ensureLiveQueryTables_def
  by (auto split: prod.splits sum.splits simp: failure_def)

lemma update_rows_keeps:
  "update_rows v w s ps c rs = (c', r) \<Longrightarrow> transactionOpen c \<Longrightarrow>
   transactionOpen c' \<and> committed c' = committed c"
proof (induction rs arbitrary: c)
  case Nil
  then show ?case by simp
next
  case (Cons bounty rest)
  show ?case
  proof (cases "amountSort ps (amount bounty) (chain_id bounty)")
    case (Inl e)
    with Cons.prems show ?thesis by simp
  next
    case (Inr a)
    obtain c1 q where q: "query w c (update_statement v s a bounty) = (c1, q)"
      by (cases "query w c (update_statement v s a bounty)")
    have st: "update_statement v s a bounty \<noteq> COMMIT" "update_statement v s a bounty \<noteq> ROLLBACK"
      by (cases v; simp add: update_statement_def)+
    from query_keeps [OF q st Cons.prems(2)]
    have k: "transactionOpen c1 \<and> committed c1 = committed c" .
    show ?thesis
    proof (cases q)
      case (Inl e)
      with Cons.prems(1) Inr q k show ?thesis by simp
    next
      case (Inr x)
      with Cons.prems(1) \<open>amountSort ps (amount bounty) (chain_id bounty) = Inr a\<close> q
      have "update_rows v w s ps c1 rest = (c', r)" by simp
      from Cons.IH [OF this] k show ?thesis by simp
    qed
  qed
qed

lemma update_rows_failfast:
  "update_rows v w s ps c rs = (c', r) \<Longrightarrow> failfast w c c' (failure r)"
proof (induction rs arbitrary: c)
  case Nil
  then show ?case by (simp add: failfast_same)
next
  case (Cons bounty rest)
  show ?case
  proof (cases "amountSort ps (amount bounty) (chain_id bounty)")
    case (Inl e)
    with Cons.prems show ?thesis by (simp add: failfast_same)
  next
    case (Inr a)
    obtain c1 q where q: "query w c (update_statement v s a bounty) = (c1, q)"
      by (cases "query w c (update_statement v s a bounty)")
    show ?thesis
    proof (cases q)
      case (Inl e)
      with Cons.prems(1) Inr q failfast_query [OF q] show ?thesis
        by (auto simp: failure_Inl)
    next
      case (Inr x)
      with Cons.prems(1) \<open>amountSort ps (amount bounty) (chain_id bounty) = Inr a\<close> q
      have "update_rows v w s ps c1 rest = (c', r)" by simp
      from Cons.IH [OF this] failfast_query [OF q] Inr show ?thesis
        by (auto intro: failfast_trans simp: failure_def)
    qed
  qed
qed

lemma updateBountyAmounts_cases:
  assumes "updateBountyAmounts v w c ps s = (c', r)"
  obtains (select_failed) e where "query w c (select_statement v s) = (c', Inl e)" "r = Inl e"
    | (no_rows) res e where "query w c (select_statement v s) = (c', Inr res)" "r = Inl e"
    | (updated) c1 res rs q where "query w c (select_statement v s) = (c1, Inr res)"
        "rows res = BountyRows rs" "update_rows v w s ps c1 rs = (c', q)" "failure q = failure r"
        "r = Inl (projl q) \<or> r = Inr (rowCount res)"
  using assms unfolding updateBountyAmounts_def
  by (auto split: prod.splits sum.splits rows.splits simp: failure_def)

lemma select_statement_plain:
  "select_statement v s \<noteq> COMMIT" "select_statement v s \<noteq> ROLLBACK"
  by (cases v; simp add: select_statement_def)+

lemma updateBountyAmounts_keeps:
  assumes "updateBountyAmounts v w c ps s = (c', r)" and "transactionOpen c"
  shows "transactionOpen c' \<and> committed c' = committed c"
  using assms(1)
proof (cases rule: updateBountyAmounts_cases)
  case (updated c1 res rs q)
  from query_keeps [OF updated(1) select_statement_plain assms(2)]
  have "transactionOpen c1 \<and> committed c1 = committed c" .
  with update_rows_keeps [OF updated(3)] show ?thesis by simp
qed (use assms(2) query_keeps select_statement_plain in \<open>blast+\<close>)

lemma updateBountyAmounts_failfast:
  assumes "updateBountyAmounts v w c ps s = (c', r)"
  shows "failfast w c c' (failure r)"
  using assms
proof (cases rule: updateBountyAmounts_cases)
  case (select_failed e)
  with failfast_query [OF select_failed(1)] show ?thesis by (simp add: failure_Inl)
next
  case (no_rows res e)
  with failfast_query [OF no_rows(1)] show ?thesis
    by (simp add: failure_def failfast_weaken)
next
  case (updated c1 res rs q)
  from failfast_query [OF updated(1)] have "failfast w c c1 None"
    by (simp add: failure_def)
  with update_rows_failfast [OF updated(3)] updated(4) show ?thesis
    by (auto intro: failfast_trans)
qed


section \<open>The try block\<close>

lemma ensure_step_keeps:
  "ensure_step v w c s = (c', r) \<Longrightarrow> transactionOpen c \<Longrightarrow>
   transactionOpen c' \<and> committed c' = committed c"
  by (cases v) (auto simp: ensure_step_def dest!: ensureLiveQueryTables_query dest: query_keeps)

lemma ensure_step_failfast:
  "ensure_step v w c s = (c', r) \<Longrightarrow> failfast w c c' (failure r)"
  by (cases v)
    (auto simp: ensure_step_def failure_Inr failfast_same dest!: ensureLiveQueryTables_query
      dest: failfast_query)

lemma main_try_cases:
  assumes "main_try v w c s = (c', res)"
  obtains (begin_failed) e where "query w c BEGIN = (c', Inl e)" "res = Inl (e, False)"
    | (price_failed) c1 q e where "query w c BEGIN = (c1, Inr q)"
        "updateLatestPrice v w c1 = (c', Inl e)" "res = Inl (e, True)"
    | (unchanged) c1 q c2 u r where "query w c BEGIN = (c1, Inr q)"
        "updateLatestPrice v w c1 = (c2, Inr u)" "\<not> didUpdate u"
        "query w c2 ROLLBACK = (c', r)"
        "res = (case r of Inl e \<Rightarrow> Inl (e, True) | Inr _ \<Rightarrow> Inr 0)"
    | (ensure_failed) c1 q c2 u e where "query w c BEGIN = (c1, Inr q)"
        "updateLatestPrice v w c1 = (c2, Inr u)" "didUpdate u"
        "ensure_step v w c2 s = (c', Inl e)" "res = Inl (e, True)"
    | (revalue_failed) c1 q c2 u c3 e where "query w c BEGIN = (c1, Inr q)"
        "updateLatestPrice v w c1 = (c2, Inr u)" "didUpdate u"
        "ensure_step v w c2 s = (c3, Inr ())"
        "updateBountyAmounts v w c3 (prices u) s = (c', Inl e)" "res = Inl (e, True)"
    | (revalued) c1 q c2 u c3 c4 n r where "query w c BEGIN = (c1, Inr q)"
        "updateLatestPrice v w c1 = (c2, Inr u)" "didUpdate u"
        "ensure_step v w c2 s = (c3, Inr ())"
        "updateBountyAmounts v w c3 (prices u) s = (c4, Inr n)"
        "query w c4 COMMIT = (c', r)"
        "res = (case r of Inl e \<Rightarrow> Inl (e, True) | Inr _ \<Rightarrow> Inr 0)"
  using assms unfolding main_try_def
  by (auto split: prod.splits sum.splits if_splits)

lemma thrown_Inl: "thrown (Inl (e, b)) = Some e"
  by (simp add: thrown_def)

lemma thrown_Inr: "thrown (Inr n) = None"
  by (simp add: thrown_def)

lemma main_try_failfast:
  assumes "main_try v w c s = (c', res)"
  shows "failfast w c c' (thrown res)"
  using assms
proof (cases rule: main_try_cases)
  case (begin_failed e)
  with failfast_query [OF begin_failed(1)] show ?thesis
    by (simp add: failure_Inl thrown_Inl)
next
  case (price_failed c1 q e)
  from failfast_query [OF price_failed(1)] have "failfast w c c1 None"
    by (simp add: failure_Inr)
  with updateLatestPrice_failfast [OF price_failed(2)] price_failed(3) show ?thesis
    by (auto intro: failfast_trans simp: failure_Inl thrown_Inl)
next
  case (unchanged c1 q c2 u r)
  from failfast_query [OF unchanged(1)] have "failfast w c c1 None"
    by (simp add: failure_Inr)
  with updateLatestPrice_failfast [OF unchanged(2)] have "failfast w c c2 None"
    by (auto intro: failfast_trans simp: failure_Inr)
  from failfast_then_query [OF this unchanged(4)] unchanged(5) show ?thesis
    by (cases r) (simp_all add: failure_Inl failure_Inr thrown_Inl thrown_Inr)
next
  case (ensure_failed c1 q c2 u e)
  from failfast_query [OF ensure_failed(1)] have "failfast w c c1 None"
    by (simp add: failure_Inr)
  with updateLatestPrice_failfast [OF ensure_failed(2)] have "failfast w c c2 None"
    by (auto intro: failfast_trans simp: failure_Inr)
  with ensure_step_failfast [OF ensure_failed(4)] ensure_failed(5) show ?thesis
    by (auto intro: failfast_trans simp: failure_Inl thrown_Inl)
next
  case (revalue_failed c1 q c2 u c3 e)
  from failfast_query [OF revalue_failed(1)] have "failfast w c c1 None"
    by (simp add: failure_Inr)
  with updateLatestPrice_failfast [OF revalue_failed(2)] have "failfast w c c2 None"
    by (auto intro: failfast_trans simp: failure_Inr)
  with ensure_step_failfast [OF revalue_failed(4)] have "failfast w c c3 None"
    by (auto intro: failfast_trans simp: failure_Inr)
  with updateBountyAmounts_failfast [OF revalue_failed(5)] revalue_failed(6) show ?thesis
    by (auto intro: failfast_trans simp: failure_Inl thrown_Inl)
next
  case (revalued c1 q c2 u c3 c4 n r)
  from failfast_query [OF revalued(1)] have "failfast w c c1 None"
    by (simp add: failure_Inr)
  with updateLatestPrice_failfast [OF revalued(2)] have "failfast w c c2 None"
    by (auto intro: failfast_trans simp: failure_Inr)
  with ensure_step_failfast [OF revalued(4)] have "failfast w c c3 None"
    by (auto intro: failfast_trans simp: failure_Inr)
  with updateBountyAmounts_failfast [OF revalued(5)] have "failfast w c c4 None"
    by (auto intro: failfast_trans simp: failure_Inr)
  from failfast_then_query [OF this revalued(6)] revalued(7) show ?thesis
    by (cases r) (simp_all add: failure_Inl failure_Inr thrown_Inl thrown_Inr)
qed

lemma main_try_committed:
  assumes "main_try v w c s = (c', Inl (e, b))"
  shows "committed c' = committed c"
  using assms
proof (cases rule: main_try_cases)
  case (begin_failed e)
  then show ?thesis by (simp add: query_failed)
next
  case (price_failed c1 q e)
  with query_begin [OF price_failed(1)] updateLatestPrice_keeps [OF price_failed(2)]
  show ?thesis by simp
next
  case (unchanged c1 q c2 u r)
  with query_begin [OF unchanged(1)] updateLatestPrice_keeps [OF unchanged(2)]
    query_rollback [OF unchanged(4)]
  show ?thesis by simp
next
  case (ensure_failed c1 q c2 u e)
  with query_begin [OF ensure_failed(1)] updateLatestPrice_keeps [OF ensure_failed(2)]
    ensure_step_keeps [OF ensure_failed(4)]
  show ?thesis by simp
next
  case (revalue_failed c1 q c2 u c3 e)
  with query_begin [OF revalue_failed(1)] updateLatestPrice_keeps [OF revalue_failed(2)]
    ensure_step_keeps [OF revalue_failed(4)] updateBountyAmounts_keeps [OF revalue_failed(5)]
  show ?thesis by simp
next
  case (revalued c1 q c2 u c3 c4 n r)
  from revalued(7) obtain e' where r: "r = Inl e'"
    by (cases r) simp_all
  from query_begin [OF revalued(1)] updateLatestPrice_keeps [OF revalued(2)]
    ensure_step_keeps [OF revalued(4)] updateBountyAmounts_keeps [OF revalued(5)]
  have "committed c4 = committed c" by simp
  with query_failed [of w c4 COMMIT c' e'] revalued(6) r show ?thesis by simp
qed

lemma main_try_not_started:
  assumes "main_try v w c s = (c', Inl (e, False))"
  shows "issued c' = issued c @ [BEGIN]"
  using assms
proof (cases rule: main_try_cases)
  case (begin_failed e)
  then show ?thesis by (simp add: query_issued)
next
  case (unchanged c1 q c2 u r)
  then show ?thesis by (cases r) simp_all
next
  case (revalued c1 q c2 u c3 c4 n r)
  then show ?thesis by (cases r) simp_all
qed simp_all

lemma main_cases:
  assumes "main v w db = (c', r)"
  obtains (not_connected) "c' = new_client db"
    | (succeeded) s c code where "main_try v w (new_client db) s = (c, Inr code)"
        "c' = client_end c" "r = Inr code"
    | (caught) s c error started c1 where
        "main_try v w (new_client db) s = (c, Inl (error, started))"
        "main_catch w c error started = (c1, r)" "c' = client_end c1"
  using assms unfolding main_def
  by (auto split: if_splits sum.splits option.splits prod.splits)

lemma main_catch_cases:
  assumes "main_catch w c error started = (c1, r)"
  obtains (not_started) "\<not> started" "c1 = c" "r = Inl error"
    | (rolled_back) q where "started" "query w c ROLLBACK = (c1, q)"
        "r = (case q of Inl rollbackError \<Rightarrow> Inl rollbackError | Inr _ \<Rightarrow> Inl error)"
  using assms unfolding main_catch_def
  by (auto split: if_splits sum.splits prod.splits)

lemma rollback_result:
  assumes "query w c ROLLBACK = (c1, q)"
  shows "(case q of Inl rollbackError \<Rightarrow> Inl rollbackError | Inr _ \<Rightarrow> (Inl error :: error + int))
    = (case faults w (length (issued c)) of None \<Rightarrow> Inl error
       | Some rollbackError \<Rightarrow> Inl rollbackError)"
  using assms by (cases rule: query_cases) (auto simp: run_statement_def)

text \<open>
  Claim C1. Revaluation is atomic. In any run in which an update of a bounty row fails
  (statement number \<open>k\<close> of the run is such an update and fails with \<open>e\<close>), that
  update is the last statement before the rollback: no later row is attempted, the
  error reaches the handler of \<open>main\<close>, which sends \<open>ROLLBACK\<close>, and the run fails, with
  \<open>e\<close> when the rollback statement succeeds. Nothing of the run is committed: the
  database is the one the run started from, with no new snapshot and no new
  \<open>amount_sort\<close>, and no transaction stays open.
\<close>

theorem revaluation_is_atomic:
  assumes "main v w db = (c', r)"
    and "k < length (issued c')" and "is_update (issued c' ! k)" and "faults w k = Some e"
  shows "issued c' = take (Suc k) (issued c') @ [ROLLBACK] \<and>
    r = (case faults w (Suc k) of None \<Rightarrow> Inl e | Some rollbackError \<Rightarrow> Inl rollbackError) \<and>
    committed c' = db \<and> session c' = db \<and> \<not> transactionOpen c'"
  using assms(1)
proof (cases rule: main_cases)
  case not_connected
  with assms(2) show ?thesis by (simp add: new_client_def)
next
  case (succeeded s c code)
  from main_try_failfast [OF succeeded(1)] assms(2,4) succeeded(2)
  show ?thesis
    by (auto simp: failfast_def thrown_Inr new_client_def client_end_def)
next
  case (caught s c error started c1)
  from main_try_failfast [OF caught(1)]
  have ff: "\<forall>j<length (issued c). \<forall>e. faults w j = Some e \<longrightarrow>
      Suc j = length (issued c) \<and> error = e"
    by (auto simp: failfast_def thrown_Inl new_client_def)
  from main_try_committed [OF caught(1)] have com: "committed c = db"
    by (simp add: new_client_def)
  from caught(2) show ?thesis
  proof (cases rule: main_catch_cases)
    case not_started
    with caught(1) main_try_not_started [of v w "new_client db" s c error]
    have "issued c' = [BEGIN]"
      using caught(3) by (simp add: new_client_def client_end_def)
    with assms(2,3) show ?thesis by (simp add: is_update_def)
  next
    case (rolled_back q)
    have log: "issued c' = issued c @ [ROLLBACK]"
      using query_issued [OF rolled_back(2)] caught(3) by (simp add: client_end_def)
    have "k < length (issued c)"
    proof (rule ccontr)
      assume "\<not> k < length (issued c)"
      with assms(2) log have "issued c' ! k = ROLLBACK"
        by (simp add: nth_append)
      with assms(3) show False by (simp add: is_update_def)
    qed
    with ff assms(4) have k: "Suc k = length (issued c)" "error = e" by auto
    have "committed c1 = db"
      using query_rollback [OF rolled_back(2)] com by simp
    with caught(3) rolled_back(3) rollback_result [OF rolled_back(2), of error] k log
    show ?thesis
      by (auto simp: client_end_def split: option.splits)
  qed
qed

lemmas run_eval =
  main_def main_try_def main_catch_def ensure_step_def ensureLiveQueryTables_def
  updateBountyAmounts_def updateLatestPrice_def query_def run_statement_def exec_def
  client_end_def new_client_def resolve_schema_def fetchDeploymentId_def promise_all_def
  latest_row_def shouldUpdatePrice_def fetchPrice_def
  fetchPrice_loop.simps attempt_price_def price_rows_def bounty_rows_def no_rows_def
  join_extra_def select_statement_def update_statement_def
  sample_world_def sample_db_def qualified_tableName qualified_bountiesTable

lemma Number_2: "Number ''2'' = Fin 4503599627370496 (- 51)"
  by (simp add: num_eval split del: if_split)

lemma toString_2: "toString_pos 4503599627370496 (- 51) = ''2''"
  by (simp add: num_eval split del: if_split)

lemma amountSort_one_token:
  "amountSort \<lparr>ethUsd = Fin 4503599627370496 (- 51), degenUsd = Fin 4503599627370496 (- 51)\<rparr>
     ''1000000000000000000'' 1 = Inr ''2.00000''"
  by (simp add: amountSort_def num_eval split del: if_split)

lemma failed_update_run:
  "main Sidecar (sample_world (\<lambda>k. if k = 4 then Some (Rejected 7) else None)
         (\<lambda>i. Body (Some ''2'')) (\<lambda>i. Body (Some ''2'')))
       (sample_db [] [\<lparr>b_id = 1, b_chain_id = 1, b_amount = ''1000000000000000000'', b_amount_sort = ''''\<rparr>]
          [\<lparr>x_bounty_id = 1, x_chain_id = 1, x_amount_sort = ''''\<rparr>])
   = (new_client (sample_db [] [\<lparr>b_id = 1, b_chain_id = 1, b_amount = ''1000000000000000000'', b_amount_sort = ''''\<rparr>]
          [\<lparr>x_bounty_id = 1, x_chain_id = 1, x_amount_sort = ''''\<rparr>])
        \<lparr>issued := [BEGIN, SELECT_latest_price, INSERT_price ''2'' ''2'', SELECT_extra,
           UPDATE_extra ''2.00000'' 1 1, ROLLBACK]\<rparr>, Inl (Rejected 7))"
  by (simp add: run_eval Number_2 toString_2 amountSort_one_token split del: if_split)

lemma begin_succeeds:
  assumes "faults w (length (issued c)) = None"
  shows "query w c BEGIN = (c\<lparr>issued := issued c @ [BEGIN], transactionOpen := True\<rparr>, Inr no_rows)"
  using assms by (simp add: query_def run_statement_def)

lemma main_try_started:
  assumes "main_try v w c s = (c', Inl (e, started))" and "faults w (length (issued c)) = None"
  shows "started"
proof (rule ccontr)
  assume "\<not> started"
  with assms(1) have "main_try v w c s = (c', Inl (e, False))" by simp
  then show False
  proof (cases rule: main_try_cases)
    case (begin_failed e)
    with begin_succeeds [OF assms(2)] show ?thesis by simp
  next
    case (unchanged c1 q c2 u r)
    then show ?thesis by (cases r) simp_all
  next
    case (revalued c1 q c2 u c3 c4 n r)
    then show ?thesis by (cases r) simp_all
  qed simp_all
qed

lemma main_connected:
  assumes "DATABASE_URL w = Some url" "url \<noteq> []" "resolve_schema v w = Inr s" "connect w = None"
  shows "main v w db =
    (case main_try v w (new_client db) s of
       (c, Inr code) \<Rightarrow> (client_end c, Inr code)
     | (c, Inl (error, transactionStarted)) \<Rightarrow>
         (case main_catch w c error transactionStarted of (c1, r) \<Rightarrow> (client_end c1, r)))"
  using assms by (simp add: main_def)

text \<open>
  Claim C2, as stated, fails: when the \<open>SELECT\<close> of the latest price fails with error 1
  and the rollback of the handler fails with error 2, \<open>main\<close> raises error 2.
\<close>

theorem rollback_error_masks_original:
  "snd (main_try Sidecar
          (sample_world (\<lambda>k. if k = 1 then Some (Rejected 1) else if k = 2 then Some (Rejected 2) else None)
             (\<lambda>i. FetchRejects) (\<lambda>i. FetchRejects))
          (new_client (sample_db [] [] [])) []) = Inl (Rejected 1, True) \<and>
   snd (main Sidecar
          (sample_world (\<lambda>k. if k = 1 then Some (Rejected 1) else if k = 2 then Some (Rejected 2) else None)
             (\<lambda>i. FetchRejects) (\<lambda>i. FetchRejects))
          (sample_db [] [] [])) = Inl (Rejected 2)"
  by (simp add: run_eval split del: if_split)

text \<open>
  Claim C2, amended. For every failure of the \<open>try\<close> block after \<open>BEGIN\<close> has succeeded,
  \<open>transactionStarted\<close> is true and the handler sends \<open>ROLLBACK\<close> as the last statement
  of the run; nothing is committed. When that rollback succeeds the original error is
  raised to the caller; when it fails, its own error is raised in place of the original.
\<close>

theorem rollback_then_rethrow:
  assumes "DATABASE_URL w = Some url" "url \<noteq> []" "resolve_schema v w = Inr s" "connect w = None"
    and "faults w 0 = None"
    and "main_try v w (new_client db) s = (c, Inl (error, started))"
  shows "started \<and>
    (\<exists>c'. main v w db =
        (c', Inl (case faults w (length (issued c)) of None \<Rightarrow> error
                  | Some rollbackError \<Rightarrow> rollbackError)) \<and>
      issued c' = issued c @ [ROLLBACK] \<and> committed c' = db \<and> session c' = db)"
proof -
  have started: started
    using main_try_started [OF assms(6)] assms(5) by (simp add: new_client_def)
  obtain c1 q where q: "query w c ROLLBACK = (c1, q)"
    by (cases "query w c ROLLBACK")
  have com: "committed c1 = db"
    using query_rollback [OF q] main_try_committed [OF assms(6)] by (simp add: new_client_def)
  have "main v w db = (client_end c1,
      case q of Inl rollbackError \<Rightarrow> Inl rollbackError | Inr _ \<Rightarrow> Inl error)"
    using assms(6) started q
    by (simp add: main_connected [OF assms(1-4)] main_catch_def split: sum.splits)
  also have "(case q of Inl rollbackError \<Rightarrow> Inl rollbackError | Inr _ \<Rightarrow> (Inl error :: error + int))
      = Inl (case faults w (length (issued c)) of None \<Rightarrow> error
             | Some rollbackError \<Rightarrow> rollbackError)"
    using rollback_result [OF q, of error] by (simp split: option.splits)
  finally show ?thesis
    using started com query_issued [OF q] by (simp add: client_end_def)
qed

theorem rollback_then_rethrow_witness:
  "main Sidecar
     (sample_world (\<lambda>k. if k = 1 then Some (Rejected 1) else None)
        (\<lambda>i. FetchRejects) (\<lambda>i. FetchRejects))
     (sample_db [] [] [])
   = (new_client (sample_db [] [] [])\<lparr>issued := [BEGIN, SELECT_latest_price, ROLLBACK]\<rparr>,
      Inl (Rejected 1))"
proof -
  let ?w = "sample_world (\<lambda>k. if k = 1 then Some (Rejected 1) else None)
        (\<lambda>i. FetchRejects) (\<lambda>i. FetchRejects)"
  let ?db = "sample_db [] [] []"
  have attempt: "main_try Sidecar ?w (new_client ?db) []
      = (new_client ?db\<lparr>transactionOpen := True, issued := [BEGIN, SELECT_latest_price]\<rparr>,
         Inl (Rejected 1, True))"
    by (simp add: run_eval split del: if_split)
  have "DATABASE_URL ?w = Some ''postgres://db''" "''postgres://db'' \<noteq> []"
    "resolve_schema Sidecar ?w = Inr []" "connect ?w = None" "faults ?w 0 = None"
    by (simp_all add: sample_world_def resolve_schema_def)
  from rollback_then_rethrow [OF this attempt]
  obtain c' where "main Sidecar ?w ?db = (c', Inl (Rejected 1))"
    "issued c' = [BEGIN, SELECT_latest_price, ROLLBACK]"
    by (auto simp: sample_world_def)
  then show ?thesis
    by (auto simp: run_eval split del: if_split)
qed

theorem revaluation_is_atomic_witness:
  "issued (fst (main Sidecar
       (sample_world (\<lambda>k. if k = 4 then Some (Rejected 7) else None)
          (\<lambda>i. Body (Some ''2'')) (\<lambda>i. Body (Some ''2'')))
       (sample_db []
          [\<lparr>b_id = 1, b_chain_id = 1, b_amount = ''1000000000000000000'', b_amount_sort = ''''\<rparr>]
          [\<lparr>x_bounty_id = 1, x_chain_id = 1, x_amount_sort = ''''\<rparr>])))
     = [BEGIN, SELECT_latest_price, INSERT_price ''2'' ''2'', SELECT_extra,
        UPDATE_extra ''2.00000'' 1 1, ROLLBACK] \<and>
   snd (main Sidecar
       (sample_world (\<lambda>k. if k = 4 then Some (Rejected 7) else None)
          (\<lambda>i. Body (Some ''2'')) (\<lambda>i. Body (Some ''2'')))
       (sample_db []
          [\<lparr>b_id = 1, b_chain_id = 1, b_amount = ''1000000000000000000'', b_amount_sort = ''''\<rparr>]
          [\<lparr>x_bounty_id = 1, x_chain_id = 1, x_amount_sort = ''''\<rparr>])) = Inl (Rejected 7) \<and>
   committed (fst (main Sidecar
       (sample_world (\<lambda>k. if k = 4 then Some (Rejected 7) else None)
          (\<lambda>i. Body (Some ''2'')) (\<lambda>i. Body (Some ''2'')))
       (sample_db []
          [\<lparr>b_id = 1, b_chain_id = 1, b_amount = ''1000000000000000000'', b_amount_sort = ''''\<rparr>]
          [\<lparr>x_bounty_id = 1, x_chain_id = 1, x_amount_sort = ''''\<rparr>])))
     = sample_db []
          [\<lparr>b_id = 1, b_chain_id = 1, b_amount = ''1000000000000000000'', b_amount_sort = ''''\<rparr>]
          [\<lparr>x_bounty_id = 1, x_chain_id = 1, x_amount_sort = ''''\<rparr>]"
proof -
  let ?w = "sample_world (\<lambda>k. if k = 4 then Some (Rejected 7) else None)
          (\<lambda>i. Body (Some ''2'')) (\<lambda>i. Body (Some ''2''))"
  let ?db = "sample_db []
          [\<lparr>b_id = 1, b_chain_id = 1, b_amount = ''1000000000000000000'', b_amount_sort = ''''\<rparr>]
          [\<lparr>x_bounty_id = 1, x_chain_id = 1, x_amount_sort = ''''\<rparr>]"
  let ?c = "new_client ?db\<lparr>issued := [BEGIN, SELECT_latest_price, INSERT_price ''2'' ''2'',
      SELECT_extra, UPDATE_extra ''2.00000'' 1 1, ROLLBACK]\<rparr>"
  have run: "main Sidecar ?w ?db = (?c, Inl (Rejected 7))"
    by (rule failed_update_run)
  have "4 < length (issued ?c)" "is_update (issued ?c ! 4)" "faults ?w 4 = Some (Rejected 7)"
    by (simp_all add: is_update_def sample_world_def)
  from revaluation_is_atomic [OF run this]
  have "issued ?c = take 5 (issued ?c) @ [ROLLBACK] \<and> committed ?c = ?db"
    by simp
  then show ?thesis
    by (simp add: run)
qed

text \<open>
  Claim C5, as stated, fails: in a run whose update decision is false, a failing
  \<open>ROLLBACK\<close> is thrown again and the run fails.
\<close>

lemma Number_0: "Number ''0'' = Fin 0 0"
  by (simp add: num_eval split del: if_split)

lemma percentChange_2_2:
  "percentChange (Fin 4503599627370496 (- 51)) (Fin 4503599627370496 (- 51)) = Inr (Fin 0 0)"
  unfolding percentChange_def lit_0 lit_100
  by (simp add: num_eval split del: if_split)

lemma price_2_unchanged:
  "shouldUpdatePrice v (Some \<lparr>eth_usd = ''2'', degen_usd = ''2''\<rparr>)
     (Fin 4503599627370496 (- 51)) (Fin 4503599627370496 (- 51)) = Inr False"
  by (cases v)
    (simp_all add: shouldUpdatePrice_def Number_2 percentChange_2_2 threshold_def lit_5 lit_10
      frac_less_def frac_of_def)

lemma first_run_updates: "shouldUpdatePrice v None a b = Inr True"
  by (simp add: shouldUpdatePrice_def)

lemmas run_steps =
  main_def main_try_def main_catch_def ensure_step_def ensureLiveQueryTables_def
  updateBountyAmounts_def updateLatestPrice_def query_def run_statement_def exec_def
  client_end_def new_client_def resolve_schema_def fetchDeploymentId_def promise_all_def
  latest_row_def first_run_updates fetchPrice_def
  fetchPrice_loop.simps attempt_price_def price_rows_def bounty_rows_def no_rows_def
  join_extra_def select_statement_def update_statement_def
  sample_world_def sample_db_def qualified_tableName qualified_bountiesTable

theorem failed_rollback_fails_unchanged_run:
  "(\<exists>c u. updateLatestPrice Sidecar
       (sample_world (\<lambda>k. if k = 2 then Some (Rejected 1) else None)
          (\<lambda>i. Body (Some ''2'')) (\<lambda>i. Body (Some ''2'')))
       (fst (query (sample_world (\<lambda>k. if k = 2 then Some (Rejected 1) else None)
          (\<lambda>i. Body (Some ''2'')) (\<lambda>i. Body (Some ''2'')))
          (new_client (sample_db [\<lparr>eth_usd = ''2'', degen_usd = ''2''\<rparr>] [] [])) BEGIN))
       = (c, Inr u) \<and> \<not> didUpdate u) \<and>
   snd (main Sidecar
       (sample_world (\<lambda>k. if k = 2 then Some (Rejected 1) else None)
          (\<lambda>i. Body (Some ''2'')) (\<lambda>i. Body (Some ''2'')))
       (sample_db [\<lparr>eth_usd = ''2'', degen_usd = ''2''\<rparr>] [] [])) = Inl (Rejected 1)"
  by (simp add: run_steps Number_2 price_2_unchanged split del: if_split)

lemma rollback_query:
  "query w c ROLLBACK =
     (case faults w (length (issued c)) of
        Some e \<Rightarrow> (c\<lparr>issued := issued c @ [ROLLBACK]\<rparr>, Inl e)
      | None \<Rightarrow> (c\<lparr>issued := issued c @ [ROLLBACK], session := committed c,
                    transactionOpen := False\<rparr>, Inr no_rows))"
  by (simp add: query_def run_statement_def split: option.splits)

text \<open>
  Claim C5, amended. In every run whose update decision is false, the statements sent
  are \<open>BEGIN\<close>, the \<open>SELECT\<close> of the latest price and \<open>ROLLBACK\<close>: no snapshot is inserted
  and no bounty row is read or written; the database is left as it was and no
  transaction stays open. The run returns 0 when that rollback succeeds; when it fails,
  the handler sends a second \<open>ROLLBACK\<close> and the run fails.
\<close>

theorem unchanged_price_touches_nothing:
  assumes "DATABASE_URL w = Some url" "url \<noteq> []" "resolve_schema v w = Inr s" "connect w = None"
    and "query w (new_client db) BEGIN = (c1, Inr q)"
    and "updateLatestPrice v w c1 = (c2, Inr updated)" and "\<not> didUpdate updated"
  shows "\<exists>c'. main v w db =
        (c', (case faults w 2 of None \<Rightarrow> Inr 0
              | Some e1 \<Rightarrow> (case faults w 3 of None \<Rightarrow> Inl e1 | Some e2 \<Rightarrow> Inl e2))) \<and>
      issued c' = (case faults w 2 of None \<Rightarrow> [BEGIN, SELECT_latest_price, ROLLBACK]
                   | Some _ \<Rightarrow> [BEGIN, SELECT_latest_price, ROLLBACK, ROLLBACK]) \<and>
      committed c' = db \<and> session c' = db \<and> \<not> transactionOpen c'"
proof -
  have c1: "issued c1 = [BEGIN]" "committed c1 = db" "transactionOpen c1"
    using query_issued [OF assms(5)] query_begin [OF assms(5)] by (simp_all add: new_client_def)
  from assms(6) obtain res where sel: "query w c1 SELECT_latest_price = (c2, Inr res)"
    using assms(7) by (cases rule: updateLatestPrice_cases) auto
  have c2: "issued c2 = [BEGIN, SELECT_latest_price]" "committed c2 = db"
    using query_issued [OF sel] query_keeps [OF sel] c1 by simp_all
  have tried: "main_try v w (new_client db) s =
      (case query w c2 ROLLBACK of
         (c3, Inl rollbackError) \<Rightarrow> (c3, Inl (rollbackError, True))
       | (c3, Inr _) \<Rightarrow> (c3, Inr 0))"
    using assms(5-7) by (simp add: main_try_def)
  show ?thesis
  proof (cases "faults w 2")
    case None
    then show ?thesis
      using c2 by (simp add: main_connected [OF assms(1-4)] tried rollback_query client_end_def eval_nat_numeral)
  next
    case (Some e1)
    then show ?thesis
      using c2
      by (simp add: main_connected [OF assms(1-4)] tried rollback_query client_end_def
          main_catch_def eval_nat_numeral split: option.splits)
  qed
qed

theorem unchanged_price_touches_nothing_witness:
  "main Sidecar (sample_world (\<lambda>k. None) (\<lambda>i. Body (Some ''2'')) (\<lambda>i. Body (Some ''2'')))
     (sample_db [\<lparr>eth_usd = ''2'', degen_usd = ''2''\<rparr>] [] [])
   = (new_client (sample_db [\<lparr>eth_usd = ''2'', degen_usd = ''2''\<rparr>] [] [])
        \<lparr>issued := [BEGIN, SELECT_latest_price, ROLLBACK]\<rparr>, Inr 0)"
proof -
  let ?w = "sample_world (\<lambda>k. None) (\<lambda>i. Body (Some ''2'')) (\<lambda>i. Body (Some ''2''))"
  let ?db = "sample_db [\<lparr>eth_usd = ''2'', degen_usd = ''2''\<rparr>] [] []"
  let ?c1 = "new_client ?db\<lparr>issued := [BEGIN], transactionOpen := True\<rparr>"
  have reach: "DATABASE_URL ?w = Some ''postgres://db''" "''postgres://db'' \<noteq> []"
    "resolve_schema Sidecar ?w = Inr []" "connect ?w = None"
    by (simp_all add: sample_world_def resolve_schema_def)
  have begun: "query ?w (new_client ?db) BEGIN = (?c1, Inr no_rows)"
    by (simp add: run_steps)
  obtain c2 u where decided: "updateLatestPrice Sidecar ?w ?c1 = (c2, Inr u)" "\<not> didUpdate u"
    by (simp add: run_steps Number_2 price_2_unchanged split del: if_split)
  from unchanged_price_touches_nothing [OF reach begun decided]
  obtain c' where "main Sidecar ?w ?db = (c', Inr 0)"
    "issued c' = [BEGIN, SELECT_latest_price, ROLLBACK]"
    by (auto simp: sample_world_def)
  then show ?thesis
    by (auto simp: run_steps Number_2 price_2_unchanged split del: if_split)
qed

text \<open>
  Claim C10. In the schema-qualified variant, when the creation of the bookkeeping
  table fails, the run fails: the statements sent are \<open>BEGIN\<close>, the \<open>SELECT\<close> of the
  latest price, the \<open>INSERT\<close> of the new snapshot, the failed \<open>CREATE TABLE\<close> and
  \<open>ROLLBACK\<close>, so no bounty row is read or revalued, and the database, the inserted
  snapshot included, is left as it was before the run.
\<close>

theorem ensure_failure_is_fatal:
  assumes "DATABASE_URL w = Some url" "url \<noteq> []" "resolve_schema SchemaQualified w = Inr s"
    "connect w = None"
    and "query w (new_client db) BEGIN = (c1, Inr q)"
    and "updateLatestPrice SchemaQualified w c1 = (c2, Inr updated)" and "didUpdate updated"
    and "ensureLiveQueryTables w c2 s = (c3, Inl e)"
  shows "\<exists>c' eth degen. main SchemaQualified w db =
        (c', Inl (case faults w 4 of None \<Rightarrow> e | Some rollbackError \<Rightarrow> rollbackError)) \<and>
      issued c' = [BEGIN, SELECT_latest_price, INSERT_price eth degen,
                   CREATE_live_query_tables (tableName s), ROLLBACK] \<and>
      committed c' = db \<and> session c' = db \<and> \<not> transactionOpen c'"
proof -
  have c1: "issued c1 = [BEGIN]" "committed c1 = db" "transactionOpen c1"
    using query_issued [OF assms(5)] query_begin [OF assms(5)] by (simp_all add: new_client_def)
  from assms(6) obtain c1' res eth degen res'
    where sel: "query w c1 SELECT_latest_price = (c1', Inr res)"
      and ins: "query w c1' (INSERT_price eth degen) = (c2, Inr res')"
    using assms(7) by (cases rule: updateLatestPrice_cases) auto
  have c1': "issued c1' = [BEGIN, SELECT_latest_price]" "committed c1' = db" "transactionOpen c1'"
    using query_issued [OF sel] query_keeps [OF sel] c1 by simp_all
  have c2: "issued c2 = [BEGIN, SELECT_latest_price, INSERT_price eth degen]" "committed c2 = db"
    "transactionOpen c2"
    using query_issued [OF ins] query_keeps [OF ins] c1' by simp_all
  from ensureLiveQueryTables_query [OF assms(8)]
  obtain q' where cr: "query w c2 (CREATE_live_query_tables (tableName s)) = (c3, q')"
    by blast
  have c3: "issued c3 = [BEGIN, SELECT_latest_price, INSERT_price eth degen,
      CREATE_live_query_tables (tableName s)]" "committed c3 = db"
    using query_issued [OF cr] query_keeps [OF cr] c2 by simp_all
  have tried: "main_try SchemaQualified w (new_client db) s = (c3, Inl (e, True))"
    using assms(5-8) by (simp add: main_try_def ensure_step_def)
  show ?thesis
    using c3
    by (simp add: main_connected [OF assms(1-4)] tried rollback_query client_end_def
        main_catch_def eval_nat_numeral split: option.splits)
qed

theorem ensure_failure_is_fatal_witness:
  "main SchemaQualified
     (sample_world (\<lambda>k. if k = 3 then Some (Rejected 3) else None)
        (\<lambda>i. Body (Some ''2'')) (\<lambda>i. Body (Some ''2'')))
     (sample_db [] [] [])
   = (new_client (sample_db [] [] [])
        \<lparr>issued := [BEGIN, SELECT_latest_price, INSERT_price ''2'' ''2'',
           CREATE_live_query_tables (tableName ''dep''), ROLLBACK]\<rparr>, Inl (Rejected 3))"
proof -
  let ?w = "sample_world (\<lambda>k. if k = 3 then Some (Rejected 3) else None)
        (\<lambda>i. Body (Some ''2'')) (\<lambda>i. Body (Some ''2''))"
  let ?db = "sample_db [] [] []"
  let ?c1 = "new_client ?db\<lparr>issued := [BEGIN], transactionOpen := True\<rparr>"
  have reach: "DATABASE_URL ?w = Some ''postgres://db''" "''postgres://db'' \<noteq> []"
    "resolve_schema SchemaQualified ?w = Inr ''dep''" "connect ?w = None"
    by (simp_all add: sample_world_def resolve_schema_def fetchDeploymentId_def)
  have begun: "query ?w (new_client ?db) BEGIN = (?c1, Inr no_rows)"
    by (simp add: run_steps)
  obtain c2 u where decided: "updateLatestPrice SchemaQualified ?w ?c1 = (c2, Inr u)" "didUpdate u"
    and c2: "c2 = new_client ?db\<lparr>issued := [BEGIN, SELECT_latest_price, INSERT_price ''2'' ''2''],
       transactionOpen := True, session := (sample_db [\<lparr>eth_usd = ''2'', degen_usd = ''2''\<rparr>] [] [])\<rparr>"
    by (simp add: run_steps Number_2 toString_2 split del: if_split)
  obtain c3 where failed: "ensureLiveQueryTables ?w c2 ''dep'' = (c3, Inl (Rejected 3))"
    unfolding c2 by (simp add: run_steps split del: if_split)
  from ensure_failure_is_fatal [OF reach begun decided failed]
  obtain c' eth degen where "main SchemaQualified ?w ?db = (c', Inl (Rejected 3))"
    "issued c' = [BEGIN, SELECT_latest_price, INSERT_price eth degen,
                   CREATE_live_query_tables (tableName ''dep''), ROLLBACK]"
    by (auto simp: sample_world_def)
  then show ?thesis
    by (auto simp: run_steps Number_2 toString_2 split del: if_split)
qed

section \<open>What is inserted as a snapshot\<close>

lemma attempt_price_Some: "attempt_price a = Some p \<longleftrightarrow> a = Body (Some p) \<and> p \<noteq> []"
  by (auto simp: attempt_price_def split: attempt.splits option.splits if_splits)

lemma attempt_price_None:
  "attempt_price a = None \<longleftrightarrow> a \<in> {FetchRejects, JsonRejects, Body None, Body (Some [])}"
  by (auto simp: attempt_price_def split: attempt.splits option.splits if_splits)

lemma fetchPrice_loop_first:
  "fetchPrice_loop quotes i retries = (Inr x, n) \<Longrightarrow> 0 < retries \<Longrightarrow>
   \<exists>j p. j < retries \<and> attempt_price (quotes (i + j)) = Some p \<and> x = Number p \<and>
     (\<forall>k<j. attempt_price (quotes (i + k)) = None)"
proof (induction quotes i retries rule: fetchPrice_loop.induct)
  case (1 quotes i retries)
  show ?case
  proof (cases "attempt_price (quotes i)")
    case (Some p)
    with "1.prems" have "x = Number p"
      by (subst (asm) fetchPrice_loop.simps) simp
    with Some "1.prems"(2) show ?thesis
      by (intro exI [of _ 0] exI [of _ p]) simp
  next
    case None
    with "1.prems"(1) have more: "retries - 1 \<noteq> 0"
      and rest: "fetchPrice_loop quotes (Suc i) (retries - 1) = (Inr x, n)"
      by (subst (asm) fetchPrice_loop.simps, simp split: if_splits)+
    from "1.IH" [OF None more rest] more
    obtain j p where j: "j < retries - 1" "attempt_price (quotes (Suc i + j)) = Some p"
      "x = Number p" "\<forall>k<j. attempt_price (quotes (Suc i + k)) = None"
      by auto
    have "\<forall>k<Suc j. attempt_price (quotes (i + k)) = None"
    proof (intro allI impI)
      fix k assume "k < Suc j"
      then show "attempt_price (quotes (i + k)) = None"
        using None j(4) by (cases k) simp_all
    qed
    with j(1-3) show ?thesis
      by (intro exI [of _ "Suc j"] exI [of _ p]) simp
  qed
qed

lemma fetchPrice_first:
  assumes "fst (fetchPrice quotes) = Inr x"
  shows "\<exists>i p. i < 5 \<and> quotes i = Body (Some p) \<and> p \<noteq> [] \<and> x = Number p \<and>
     (\<forall>k<i. quotes k \<in> {FetchRejects, JsonRejects, Body None, Body (Some [])})"
proof -
  have "fetchPrice_loop quotes 0 5 = (Inr x, snd (fetchPrice quotes))"
    using assms by (simp add: fetchPrice_def prod_eq_iff)
  from fetchPrice_loop_first [OF this]
  show ?thesis
    by (simp add: attempt_price_Some attempt_price_None)
qed

lemma first_snapshot:
  assumes "Price (session c) = []"
    and "faults w (length (issued c)) = None"
    and "faults w (Suc (length (issued c))) = None"
    and "eth_quotes w 0 = Body (Some p)" "p \<noteq> []"
    and "degen_quotes w 0 = Body (Some q)" "q \<noteq> []"
  shows "Price (session (fst (updateLatestPrice v w c)))
    = [\<lparr>eth_usd = toString (Number p), degen_usd = toString (Number q)\<rparr>]"
proof -
  have eth: "fetchPrice (eth_quotes w) = (Inr (Number p), Suc 0)"
    using assms(4,5) by (simp add: fetchPrice_def fetchPrice_loop.simps attempt_price_def)
  have degen: "fetchPrice (degen_quotes w) = (Inr (Number q), Suc 0)"
    using assms(6,7) by (simp add: fetchPrice_def fetchPrice_loop.simps attempt_price_def)
  show ?thesis
    using assms(1-3)
    by (simp add: updateLatestPrice_def query_def run_statement_def exec_def eth degen
        promise_all_def latest_row_def price_rows_def shouldUpdatePrice_def no_rows_def)
qed

lemma select_latest_session:
  "query w c SELECT_latest_price = (c', r) \<Longrightarrow> session c' = session c"
  by (erule query_cases) (auto simp: run_statement_def exec_def)

lemma insert_price_session:
  "query w c (INSERT_price eth degen) = (c', Inr r) \<Longrightarrow>
   Price (session c') = Price (session c) @ [\<lparr>eth_usd = eth, degen_usd = degen\<rparr>]"
  by (erule query_cases) (auto simp: run_statement_def exec_def)

text \<open>
  Claim C8, as stated, fails: on a first run, quotes of \<open>"-1"\<close> for eth and \<open>"abc"\<close> for
  degen pass \<open>!price\<close>, and the committed snapshot holds \<open>-1\<close> and \<open>NaN\<close>.
\<close>

lemma Number_minus_1: "Number ''-1'' = Fin (- 4503599627370496) (- 52)"
  by (simp add: num_eval split del: if_split)

lemma Number_abc: "Number ''abc'' = NaN"
  by (simp add: num_eval split del: if_split)

lemma toString_1: "toString_pos 4503599627370496 (- 52) = ''1''"
  by (simp add: num_eval split del: if_split)

theorem negative_and_NaN_snapshot:
  "main Sidecar (sample_world (\<lambda>k. None) (\<lambda>i. Body (Some ''-1'')) (\<lambda>i. Body (Some ''abc'')))
     (sample_db [] [] [])
   = (new_client (sample_db [\<lparr>eth_usd = ''-1'', degen_usd = ''NaN''\<rparr>] [] [])
        \<lparr>issued := [BEGIN, SELECT_latest_price, INSERT_price ''-1'' ''NaN'', SELECT_extra, COMMIT]\<rparr>,
      Inr 0) \<and>
   \<not> num_gt (Number ''-1'') (lit 0) \<and> Number ''NaN'' = NaN"
proof -
  have "\<not> num_gt (Number ''-1'') (lit 0)"
    by (simp add: Number_minus_1 lit_0 frac_less_def frac_of_def)
  moreover have "Number ''NaN'' = NaN"
    by (simp add: num_eval split del: if_split)
  ultimately show ?thesis
    by (simp add: run_steps Number_minus_1 Number_abc toString_1 split del: if_split)
qed

text \<open>
  Claim C8, amended. \<open>updateLatestPrice\<close> leaves the snapshot table as it is or appends
  one row. The two fields of that row are the texts \<open>toString\<close> gives for the two values
  \<open>fetchPrice\<close> returned, eth then degen, and each value is \<open>Number(p)\<close> for \<open>p\<close> the
  \<open>data.rates.USD\<close> string of the first answer, among at most five, that carries a
  non-empty one. The job tests neither the sign nor the finiteness of these values: when
  there is no previous snapshot and the two statements go through, the first answers
  \<open>p0\<close> and \<open>q0\<close>, whatever non-empty strings they are, make the row of \<open>Number(p0)\<close> and
  \<open>Number(q0)\<close>. So a field is a positive finite decimal only when the quoted string
  denotes such a number.
\<close>

theorem snapshot_holds_first_quotes:
  "(updateLatestPrice v w c = (c', r) \<longrightarrow>
      Price (session c') = Price (session c) \<or>
      (\<exists>i j p q.
         i < 5 \<and> eth_quotes w i = Body (Some p) \<and> p \<noteq> [] \<and>
         (\<forall>k<i. eth_quotes w k \<in> {FetchRejects, JsonRejects, Body None, Body (Some [])}) \<and>
         j < 5 \<and> degen_quotes w j = Body (Some q) \<and> q \<noteq> [] \<and>
         (\<forall>k<j. degen_quotes w k \<in> {FetchRejects, JsonRejects, Body None, Body (Some [])}) \<and>
         fst (fetchPrice (eth_quotes w)) = Inr (Number p) \<and>
         fst (fetchPrice (degen_quotes w)) = Inr (Number q) \<and>
         Price (session c') = Price (session c) @
           [\<lparr>eth_usd = toString (Number p), degen_usd = toString (Number q)\<rparr>])) \<and>
   (Price (session c) = [] \<and> faults w (length (issued c)) = None \<and>
    faults w (Suc (length (issued c))) = None \<and>
    eth_quotes w 0 = Body (Some p0) \<and> p0 \<noteq> [] \<and>
    degen_quotes w 0 = Body (Some q0) \<and> q0 \<noteq> [] \<longrightarrow>
      Price (session (fst (updateLatestPrice v w c)))
        = [\<lparr>eth_usd = toString (Number p0), degen_usd = toString (Number q0)\<rparr>])"
proof (intro conjI impI)
  assume run: "updateLatestPrice v w c = (c', r)"
  obtain c1 r1 where sel: "query w c SELECT_latest_price = (c1, r1)"
    by (cases "query w c SELECT_latest_price")
  have s1: "session c1 = session c"
    using sel by (rule select_latest_session)
  show "Price (session c') = Price (session c) \<or>
      (\<exists>i j p q.
         i < 5 \<and> eth_quotes w i = Body (Some p) \<and> p \<noteq> [] \<and>
         (\<forall>k<i. eth_quotes w k \<in> {FetchRejects, JsonRejects, Body None, Body (Some [])}) \<and>
         j < 5 \<and> degen_quotes w j = Body (Some q) \<and> q \<noteq> [] \<and>
         (\<forall>k<j. degen_quotes w k \<in> {FetchRejects, JsonRejects, Body None, Body (Some [])}) \<and>
         fst (fetchPrice (eth_quotes w)) = Inr (Number p) \<and>
         fst (fetchPrice (degen_quotes w)) = Inr (Number q) \<and>
         Price (session c') = Price (session c) @
           [\<lparr>eth_usd = toString (Number p), degen_usd = toString (Number q)\<rparr>])"
  proof (cases "\<exists>x y res. r1 = Inr res \<and> fst (fetchPrice (eth_quotes w)) = Inr x \<and>
      fst (fetchPrice (degen_quotes w)) = Inr y \<and>
      shouldUpdatePrice v (latest_row res) x y = Inr True")
    case True
    then obtain x y res where res: "r1 = Inr res"
      and x: "fst (fetchPrice (eth_quotes w)) = Inr x"
      and y: "fst (fetchPrice (degen_quotes w)) = Inr y"
      and yes: "shouldUpdatePrice v (latest_row res) x y = Inr True"
      by blast
    obtain c2 r2 where ins: "query w c1 (INSERT_price (toString x) (toString y)) = (c2, r2)"
      by (cases "query w c1 (INSERT_price (toString x) (toString y))")
    have c': "c' = c2"
      using run sel res x y yes ins
      by (auto simp: updateLatestPrice_def promise_all_def split: sum.splits)
    show ?thesis
    proof (cases r2)
      case (Inl e)
      with query_failed [of w c1 _ c2 e] ins s1 c' show ?thesis by simp
    next
      case (Inr res')
      from fetchPrice_first [OF x] obtain i p where i: "i < 5" "eth_quotes w i = Body (Some p)"
        "p \<noteq> []" "x = Number p"
        "\<forall>k<i. eth_quotes w k \<in> {FetchRejects, JsonRejects, Body None, Body (Some [])}"
        by blast
      from fetchPrice_first [OF y] obtain j q where j: "j < 5" "degen_quotes w j = Body (Some q)"
        "q \<noteq> []" "y = Number q"
        "\<forall>k<j. degen_quotes w k \<in> {FetchRejects, JsonRejects, Body None, Body (Some [])}"
        by blast
      have "Price (session c') = Price (session c) @
           [\<lparr>eth_usd = toString (Number p), degen_usd = toString (Number q)\<rparr>]"
        using insert_price_session [of w c1 "toString x" "toString y" c2 res'] ins Inr s1 c'
          i(4) j(4) by simp
      with i j x y show ?thesis by blast
    qed
  next
    case False
    then have "c' = c1"
      using run sel
      by (auto simp: updateLatestPrice_def promise_all_def
          split: sum.splits prod.splits bool.splits option.splits)
    with s1 show ?thesis by simp
  qed
next
  assume "Price (session c) = [] \<and> faults w (length (issued c)) = None \<and>
    faults w (Suc (length (issued c))) = None \<and>
    eth_quotes w 0 = Body (Some p0) \<and> p0 \<noteq> [] \<and>
    degen_quotes w 0 = Body (Some q0) \<and> q0 \<noteq> []"
  then show "Price (session (fst (updateLatestPrice v w c)))
        = [\<lparr>eth_usd = toString (Number p0), degen_usd = toString (Number q0)\<rparr>]"
    by (simp add: first_snapshot)
qed

theorem snapshot_holds_first_quotes_witness:
  "Price (session (fst (updateLatestPrice Sidecar
       (sample_world (\<lambda>k. None)
          (\<lambda>i. if i = 0 then JsonRejects else if i = 1 then Body (Some ''2'') else Body (Some ''3''))
          (\<lambda>i. Body (Some ''2'')))
       (new_client (sample_db [] [] [])))))
   = [\<lparr>eth_usd = toString (Number ''2''), degen_usd = toString (Number ''2'')\<rparr>] \<and>
   Price (session (fst (updateLatestPrice SchemaQualified
       (sample_world (\<lambda>k. None) (\<lambda>i. Body (Some ''-1'')) (\<lambda>i. Body (Some ''abc'')))
       (new_client (sample_db [] [] [])))))
   = [\<lparr>eth_usd = toString (Number ''-1''), degen_usd = toString (Number ''abc'')\<rparr>]"
proof -
  let ?w = "sample_world (\<lambda>k. None)
          (\<lambda>i. if i = 0 then JsonRejects else if i = 1 then Body (Some ''2'') else Body (Some ''3''))
          (\<lambda>i. Body (Some ''2''))"
  let ?u = "sample_world (\<lambda>k. None) (\<lambda>i. Body (Some ''-1'')) (\<lambda>i. Body (Some ''abc''))"
  let ?c = "new_client (sample_db [] [] [])"
  have grown: "Price (session (fst (updateLatestPrice Sidecar ?w ?c))) \<noteq> Price (session ?c)"
    by (simp add: run_steps Number_2 toString_2 split del: if_split)
  have eth: "\<And>i p. i < 5 \<Longrightarrow> eth_quotes ?w i = Body (Some p) \<Longrightarrow>
      \<forall>k<i. eth_quotes ?w k \<in> {FetchRejects, JsonRejects, Body None, Body (Some [])} \<Longrightarrow> p = ''2''"
  proof -
    fix i p assume i: "i < 5" "eth_quotes ?w i = Body (Some p)"
      "\<forall>k<i. eth_quotes ?w k \<in> {FetchRejects, JsonRejects, Body None, Body (Some [])}"
    have "i \<noteq> 0" using i(2) by (auto simp: sample_world_def split: if_splits)
    moreover have "\<not> 1 < i"
    proof
      assume "1 < i"
      with i(3) have "eth_quotes ?w 1 \<in> {FetchRejects, JsonRejects, Body None, Body (Some [])}"
        by blast
      then show False by (simp add: sample_world_def)
    qed
    ultimately have "i = 1" by simp
    with i(2) show "p = ''2''" by (simp add: sample_world_def)
  qed
  have degen: "\<And>j q. degen_quotes ?w j = Body (Some q) \<Longrightarrow> q = ''2''"
    by (simp add: sample_world_def)
  note A = snapshot_holds_first_quotes
    [of Sidecar ?w ?c "fst (updateLatestPrice Sidecar ?w ?c)" "snd (updateLatestPrice Sidecar ?w ?c)",
      THEN conjunct1, rule_format, OF prod.collapse [symmetric]]
  from A grown obtain i j p q where "i < 5" "eth_quotes ?w i = Body (Some p)"
    "\<forall>k<i. eth_quotes ?w k \<in> {FetchRejects, JsonRejects, Body None, Body (Some [])}"
    "degen_quotes ?w j = Body (Some q)"
    "Price (session (fst (updateLatestPrice Sidecar ?w ?c))) = Price (session ?c) @
         [\<lparr>eth_usd = toString (Number p), degen_usd = toString (Number q)\<rparr>]"
    by blast
  with eth [of i p] degen [of j q]
  have 1: "Price (session (fst (updateLatestPrice Sidecar ?w ?c)))
      = [\<lparr>eth_usd = toString (Number ''2''), degen_usd = toString (Number ''2'')\<rparr>]"
    by (simp add: new_client_def sample_db_def)
  have "Price (session ?c) = [] \<and> faults ?u (length (issued ?c)) = None \<and>
    faults ?u (Suc (length (issued ?c))) = None \<and>
    eth_quotes ?u 0 = Body (Some ''-1'') \<and> ''-1'' \<noteq> [] \<and>
    degen_quotes ?u 0 = Body (Some ''abc'') \<and> ''abc'' \<noteq> []"
    by (simp add: new_client_def sample_db_def sample_world_def)
  with snapshot_holds_first_quotes [of SchemaQualified ?u ?c _ _ "''-1''" "''abc''"]
  have 2: "Price (session (fst (updateLatestPrice SchemaQualified ?u ?c)))
      = [\<lparr>eth_usd = toString (Number ''-1''), degen_usd = toString (Number ''abc'')\<rparr>]"
    by blast
  from 1 2 show ?thesis by simp
qed

section \<open>The values written to the bounty rows\<close>
















lemma amountSort_degen_token:
  "amountSort \<lparr>ethUsd = Fin 4503599627370496 (- 51), degenUsd = Fin 4503599627370496 (- 52)\<rparr>
     ''1000000000000000000'' 666666666 = Inr ''1.00000''"
  by (simp add: amountSort_def num_eval split del: if_split)

lemma amountSort_eth_token:
  "amountSort \<lparr>ethUsd = Fin 4503599627370496 (- 51), degenUsd = Fin 4503599627370496 (- 52)\<rparr>
     ''1000000000000000000'' 1 = Inr ''2.00000''"
  by (simp add: amountSort_def num_eval split del: if_split)



text \<open>
  The hypothesis on the ids is needed in the schema-qualified layout: were two rows of
  the table to share an id, \<open>UPDATE \<dots> WHERE id = $2\<close> would write both at each turn, and
  the row of chain 1 would end with the value computed for the row of chain 666666666.
\<close>

lemma shared_id_overwritten:
  "\<not> identified SchemaQualified ''dep'' (sample_db []
       [\<lparr>b_id = 1, b_chain_id = 1, b_amount = ''1000000000000000000'', b_amount_sort = ''''\<rparr>,
        \<lparr>b_id = 1, b_chain_id = 666666666, b_amount = ''1000000000000000000'', b_amount_sort = ''''\<rparr>] []) \<and>
   Bounties (session (fst (updateBountyAmounts SchemaQualified
          (sample_world (\<lambda>k. None) (\<lambda>i. FetchRejects) (\<lambda>i. FetchRejects))
          \<lparr>committed = sample_db []
               [\<lparr>b_id = 1, b_chain_id = 1, b_amount = ''1000000000000000000'', b_amount_sort = ''''\<rparr>,
                \<lparr>b_id = 1, b_chain_id = 666666666, b_amount = ''1000000000000000000'', b_amount_sort = ''''\<rparr>] [],
            session = sample_db []
               [\<lparr>b_id = 1, b_chain_id = 1, b_amount = ''1000000000000000000'', b_amount_sort = ''''\<rparr>,
                \<lparr>b_id = 1, b_chain_id = 666666666, b_amount = ''1000000000000000000'', b_amount_sort = ''''\<rparr>] [],
            transactionOpen = True, issued = [BEGIN]\<rparr>
          \<lparr>ethUsd = Fin 4503599627370496 (- 51), degenUsd = Fin 4503599627370496 (- 52)\<rparr> ''dep''))) ''dep''
     = [\<lparr>b_id = 1, b_chain_id = 1, b_amount = ''1000000000000000000'', b_amount_sort = ''1.00000''\<rparr>,
        \<lparr>b_id = 1, b_chain_id = 666666666, b_amount = ''1000000000000000000'', b_amount_sort = ''1.00000''\<rparr>] \<and>
   amountSort \<lparr>ethUsd = Fin 4503599627370496 (- 51), degenUsd = Fin 4503599627370496 (- 52)\<rparr>
     ''1000000000000000000'' 1 = Inr ''2.00000''"
  by (simp add: identified_def run_eval amountSort_degen_token amountSort_eth_token
      split del: if_split)

end
